theory Spec2Isabelle
  imports Main
begin

section \<open>Strings\<close>

text \<open>
  Go strings are byte sequences; they are modelled as \<open>string\<close> (a list of 8-bit
  characters). Where \<open>filepath.Match\<close> decodes a rune (for \<open>?\<close> and for a bracket
  expression), the model reads one character: it is exact on ASCII text, which is what
  the rule patterns and the paths of the repository are written in. Literal pattern
  characters are compared byte by byte, in Go as in the model.
\<close>

definition HasPrefix :: "string \<Rightarrow> string \<Rightarrow> bool" where
  "HasPrefix s p = (take (length p) s = p)"

definition HasSuffix :: "string \<Rightarrow> string \<Rightarrow> bool" where
  "HasSuffix s x = (length x \<le> length s \<and> drop (length s - length x) s = x)"

definition TrimSuffix :: "string \<Rightarrow> string \<Rightarrow> string" where
  "TrimSuffix s x = (if HasSuffix s x then take (length s - length x) s else s)"

definition TrimPrefix :: "string \<Rightarrow> string \<Rightarrow> string" where
  "TrimPrefix s p = (if HasPrefix s p then drop (length p) s else s)"

fun Contains :: "string \<Rightarrow> string \<Rightarrow> bool" where
  "Contains [] sub = (sub = [])"
| "Contains (c # s) sub = (HasPrefix (c # s) sub \<or> Contains s sub)"

text \<open>
  \<open>strings.TrimSpace\<close> removes the white space of Unicode at both ends. \<open>spaceSeqs\<close>
  lists the UTF-8 encodings of the white-space runes: U+0009 to U+000D, U+0020, U+0085,
  U+00A0, U+1680, U+2000 to U+200A, U+2028, U+2029, U+202F, U+205F and U+3000. A string
  starts (ends) with a white-space rune exactly when it starts (ends) with one of them.
\<close>

definition spaceSeqs :: "string list" where
  "spaceSeqs =
     [[CHR 0x09], [CHR 0x0A], [CHR 0x0B], [CHR 0x0C], [CHR 0x0D], [CHR 0x20],
      [CHR 0xC2, CHR 0x85], [CHR 0xC2, CHR 0xA0], [CHR 0xE1, CHR 0x9A, CHR 0x80],
      [CHR 0xE2, CHR 0x80, CHR 0x80], [CHR 0xE2, CHR 0x80, CHR 0x81],
      [CHR 0xE2, CHR 0x80, CHR 0x82], [CHR 0xE2, CHR 0x80, CHR 0x83],
      [CHR 0xE2, CHR 0x80, CHR 0x84], [CHR 0xE2, CHR 0x80, CHR 0x85],
      [CHR 0xE2, CHR 0x80, CHR 0x86], [CHR 0xE2, CHR 0x80, CHR 0x87],
      [CHR 0xE2, CHR 0x80, CHR 0x88], [CHR 0xE2, CHR 0x80, CHR 0x89],
      [CHR 0xE2, CHR 0x80, CHR 0x8A], [CHR 0xE2, CHR 0x80, CHR 0xA8],
      [CHR 0xE2, CHR 0x80, CHR 0xA9], [CHR 0xE2, CHR 0x80, CHR 0xAF],
      [CHR 0xE2, CHR 0x81, CHR 0x9F], [CHR 0xE3, CHR 0x80, CHR 0x80]]"

text \<open>The width in bytes of the white-space rune at the start and at the end of a string,
  0 when there is none.\<close>

definition leadingSpace :: "string \<Rightarrow> nat" where
  "leadingSpace s = (case find (\<lambda>q. HasPrefix s q) spaceSeqs of None \<Rightarrow> 0 | Some q \<Rightarrow> length q)"

definition trailingSpace :: "string \<Rightarrow> nat" where
  "trailingSpace s = (case find (\<lambda>q. HasSuffix s q) spaceSeqs of None \<Rightarrow> 0 | Some q \<Rightarrow> length q)"

lemma leadingSpace_Nil: "leadingSpace [] = 0"
  by (simp add: leadingSpace_def spaceSeqs_def HasPrefix_def)

lemma trailingSpace_Nil: "trailingSpace [] = 0"
  by (simp add: trailingSpace_def spaceSeqs_def HasSuffix_def)

function TrimLeftSpace :: "string \<Rightarrow> string" where
  "TrimLeftSpace s = (if leadingSpace s = 0 then s else TrimLeftSpace (drop (leadingSpace s) s))"
  by pat_completeness auto
termination
proof (relation "measure length", goal_cases)
  case 1
  show ?case by simp
next
  case (2 s)
  then have "s \<noteq> []" using leadingSpace_Nil by auto
  with 2 show ?case by simp
qed

function TrimRightSpace :: "string \<Rightarrow> string" where
  "TrimRightSpace s =
     (if trailingSpace s = 0 then s else TrimRightSpace (take (length s - trailingSpace s) s))"
  by pat_completeness auto
termination
proof (relation "measure length", goal_cases)
  case 1
  show ?case by simp
next
  case (2 s)
  then have "s \<noteq> []" using trailingSpace_Nil by auto
  with 2 show ?case by simp
qed

declare TrimLeftSpace.simps [simp del] TrimRightSpace.simps [simp del]

definition TrimSpace :: "string \<Rightarrow> string" where
  "TrimSpace s = TrimRightSpace (TrimLeftSpace s)"

definition Join :: "string list \<Rightarrow> string \<Rightarrow> string" where
  "Join elems sep = (case elems of [] \<Rightarrow> [] | e # es \<Rightarrow> e @ concat (map (\<lambda>x. sep @ x) es))"

section \<open>The glob matcher of the Go library (\<open>filepath.Match\<close>, Unix)\<close>

datatype match_error = ErrBadPattern

definition Separator :: char where
  "Separator = CHR ''/''"

definition backslash :: char where
  "backslash = CHR 0x5C"

text \<open>\<open>scanChunk\<close> strips the leading stars and cuts the pattern before the next star
  that stands outside a bracket expression. \<open>scanIdx\<close> is the index its scan loop
  stops at.\<close>

fun scanIdx :: "string \<Rightarrow> bool \<Rightarrow> nat" where
  "scanIdx [] inrange = 0"
| "scanIdx (c # cs) inrange =
     (if c = backslash then (case cs of [] \<Rightarrow> 1 | d # ds \<Rightarrow> 2 + scanIdx ds inrange)
      else if c = CHR ''['' then 1 + scanIdx cs True
      else if c = CHR '']'' then 1 + scanIdx cs False
      else if c = CHR ''*'' then (if inrange then 1 + scanIdx cs inrange else 0)
      else 1 + scanIdx cs inrange)"

definition scanChunk :: "string \<Rightarrow> bool \<times> string \<times> string" where
  "scanChunk pattern =
     (let star = (pattern \<noteq> [] \<and> hd pattern = CHR ''*'');
          p = dropWhile (\<lambda>c. c = CHR ''*'') pattern;
          i = scanIdx p False
      in (star, take i p, drop i p))"

text \<open>\<open>getEsc\<close> reads one possibly escaped character of a bracket expression.\<close>

definition getEsc :: "string \<Rightarrow> match_error + (char \<times> string)" where
  "getEsc chunk =
     (if chunk = [] \<or> hd chunk = CHR ''-'' \<or> hd chunk = CHR '']'' then Inl ErrBadPattern
      else let chunk1 = (if hd chunk = backslash then tl chunk else chunk)
           in if chunk1 = [] then Inl ErrBadPattern
              else if tl chunk1 = [] then Inl ErrBadPattern
              else Inr (hd chunk1, tl chunk1))"

definition inRange :: "char \<Rightarrow> char \<Rightarrow> char \<Rightarrow> bool" where
  "inRange lo r hi = ((of_char lo :: nat) \<le> of_char r \<and> (of_char r :: nat) \<le> of_char hi)"

lemma getEsc_shorter: "getEsc chunk = Inr (r, nchunk) \<Longrightarrow> length nchunk < length chunk"
  by (cases chunk) (auto simp: getEsc_def Let_def split: if_splits)

text \<open>The loop over the ranges of a bracket expression: it stops at the closing bracket
  once one range has been read.\<close>

function parseRanges :: "string \<Rightarrow> char \<Rightarrow> bool \<Rightarrow> nat \<Rightarrow> match_error + (bool \<times> string)" where
  "parseRanges chunk r match nrange =
     (if chunk \<noteq> [] \<and> hd chunk = CHR '']'' \<and> nrange > 0 then Inr (match, tl chunk)
      else case getEsc chunk of
             Inl e \<Rightarrow> Inl e
           | Inr (lo, chunk1) \<Rightarrow>
               (if hd chunk1 = CHR ''-'' then
                  (case getEsc (tl chunk1) of
                     Inl e \<Rightarrow> Inl e
                   | Inr (hi, chunk2) \<Rightarrow>
                       parseRanges chunk2 r (match \<or> inRange lo r hi) (nrange + 1))
                else parseRanges chunk1 r (match \<or> inRange lo r lo) (nrange + 1)))"
  by pat_completeness auto
termination
proof (relation "measure (\<lambda>(chunk, r, match, nrange). length chunk)")
  show "wf (measure (\<lambda>(chunk, r, match, nrange). length chunk))" by simp
next
  fix chunk :: string and r :: char and match :: bool and nrange :: nat
    and x2 :: "char \<times> string" and lo chunk1 and y2 :: "char \<times> string" and hi chunk2
  assume "getEsc chunk = Inr x2" "(lo, chunk1) = x2" "hd chunk1 = CHR ''-''"
    "getEsc (tl chunk1) = Inr y2" "(hi, chunk2) = y2"
  then have "length chunk1 < length chunk" "length chunk2 < length (tl chunk1)"
    using getEsc_shorter by metis+
  then show "((chunk2, r, match \<or> inRange lo r hi, nrange + 1), (chunk, r, match, nrange))
               \<in> measure (\<lambda>(chunk, r, match, nrange). length chunk)"
    by simp
next
  fix chunk :: string and r :: char and match :: bool and nrange :: nat
    and x2 :: "char \<times> string" and lo chunk1
  assume "getEsc chunk = Inr x2" "(lo, chunk1) = x2"
  then have "length chunk1 < length chunk"
    using getEsc_shorter by metis
  then show "((chunk1, r, match \<or> inRange lo r lo, nrange + 1), (chunk, r, match, nrange))
               \<in> measure (\<lambda>(chunk, r, match, nrange). length chunk)"
    by simp
qed

lemma parseRanges_shorter:
  "parseRanges chunk r match nrange = Inr (m, rest) \<Longrightarrow> length rest < length chunk"
proof (induction chunk r match nrange rule: parseRanges.induct)
  case (1 chunk r match nrange)
  show ?case
  proof (cases "chunk \<noteq> [] \<and> hd chunk = CHR '']'' \<and> nrange > 0")
    case True
    with "1.prems" show ?thesis by (cases chunk) auto
  next
    case False
    then obtain lo chunk1 where e1: "getEsc chunk = Inr (lo, chunk1)"
      using "1.prems" by (auto split: sum.splits)
    have l1: "length chunk1 < length chunk" using e1 by (rule getEsc_shorter)
    show ?thesis
    proof (cases "hd chunk1 = CHR ''-''")
      case dash: True
      then obtain hi chunk2 where e2: "getEsc (tl chunk1) = Inr (hi, chunk2)"
        using "1.prems" False e1 by (auto split: sum.splits)
      have "parseRanges chunk2 r (match \<or> inRange lo r hi) (nrange + 1) = Inr (m, rest)"
        using "1.prems" False e1 dash e2 by simp
      then have "length rest < length chunk2"
        using "1.IH"(1) False e1 dash e2 by simp
      moreover have "length chunk2 < length (tl chunk1)" using e2 by (rule getEsc_shorter)
      ultimately show ?thesis using l1 by simp
    next
      case nodash: False
      have "parseRanges chunk1 r (match \<or> inRange lo r lo) (nrange + 1) = Inr (m, rest)"
        using "1.prems" False e1 nodash by simp
      then have "length rest < length chunk1"
        using "1.IH"(2) False e1 nodash by simp
      then show ?thesis using l1 by simp
    qed
  qed
qed

text \<open>\<open>matchChunk\<close> matches one star-free chunk at the start of \<open>s\<close>. Once the match
  has failed the loop goes on over the chunk, only to report a malformed pattern. The
  result is the error, or the rest of \<open>s\<close> when the chunk matched.\<close>

function matchChunkLoop :: "string \<Rightarrow> string \<Rightarrow> bool \<Rightarrow> match_error + string option" where
  "matchChunkLoop [] s failed = (if failed then Inr None else Inr (Some s))"
| "matchChunkLoop (c # chunk) s failed0 =
     (let failed = (failed0 \<or> s = []) in
      if c = CHR ''['' then
        (let r = (if failed then CHR 0x00 else hd s);
             s1 = (if failed then s else tl s);
             negated = (chunk \<noteq> [] \<and> hd chunk = CHR ''^'');
             chunk1 = (if negated then tl chunk else chunk)
         in case parseRanges chunk1 r False 0 of
              Inl e \<Rightarrow> Inl e
            | Inr (match, chunk2) \<Rightarrow> matchChunkLoop chunk2 s1 (failed \<or> match = negated))
      else if c = CHR ''?'' then
        (if failed then matchChunkLoop chunk s failed
         else matchChunkLoop chunk (tl s) (hd s = Separator))
      else if c = backslash then
        (case chunk of
           [] \<Rightarrow> Inl ErrBadPattern
         | d # chunk1 \<Rightarrow>
             (if failed then matchChunkLoop chunk1 s failed
              else matchChunkLoop chunk1 (tl s) (d \<noteq> hd s)))
      else
        (if failed then matchChunkLoop chunk s failed
         else matchChunkLoop chunk (tl s) (c \<noteq> hd s)))"
  by pat_completeness auto
termination
proof (relation "measure (\<lambda>(chunk, s, failed). length chunk)", goal_cases)
  case 1
  show ?case by simp
next
  case (2 c chunk s failed0 failed r s1 negated chunk1 x2 match chunk2)
  then have "length chunk2 < length chunk1"
    using parseRanges_shorter by metis
  moreover have "length chunk1 \<le> length chunk"
    using 2 by (cases chunk) auto
  ultimately show ?case by simp
qed auto

definition matchChunk :: "string \<Rightarrow> string \<Rightarrow> match_error + string option" where
  "matchChunk chunk s = matchChunkLoop chunk s False"

declare parseRanges.simps [simp del]

text \<open>The inner loop of \<open>Match\<close> after a star: it skips \<open>i + 1\<close> characters of the
  name, never a separator, until the chunk matches there; \<open>final\<close> says that no
  pattern is left after the chunk, in which case the chunk must reach the end of the
  name.\<close>

fun starLoop :: "string \<Rightarrow> bool \<Rightarrow> string \<Rightarrow> match_error + string option" where
  "starLoop chunk final [] = Inr None"
| "starLoop chunk final (c # name) =
     (if c = Separator then Inr None
      else case matchChunk chunk name of
             Inl e \<Rightarrow> Inl e
           | Inr None \<Rightarrow> starLoop chunk final name
           | Inr (Some t) \<Rightarrow>
               (if final \<and> t \<noteq> [] then starLoop chunk final name else Inr (Some t)))"

lemma scanIdx_pos: "p \<noteq> [] \<Longrightarrow> hd p \<noteq> CHR ''*'' \<Longrightarrow> 0 < scanIdx p inrange"
  by (cases p) (auto simp: backslash_def split: list.splits)

lemma scanChunk_shorter:
  assumes "pattern \<noteq> []" and "scanChunk pattern = (star, chunk, rest)"
  shows "length rest < length pattern"
proof (cases "hd pattern = CHR ''*''")
  case True
  then have "length (dropWhile (\<lambda>c. c = CHR ''*'') pattern) < length pattern"
    using assms(1) by (cases pattern) (auto simp: length_dropWhile_le le_imp_less_Suc)
  then show ?thesis using assms(2) by (auto simp: scanChunk_def Let_def)
next
  case False
  then have p: "dropWhile (\<lambda>c. c = CHR ''*'') pattern = pattern"
    using assms(1) by (cases pattern) auto
  have "0 < scanIdx pattern False" using assms(1) False by (rule scanIdx_pos)
  then show ?thesis using assms p by (auto simp: scanChunk_def Let_def)
qed

lemma scanChunk_shorter_sym:
  "(star, chunk, rest) = scanChunk pattern \<Longrightarrow> pattern \<noteq> [] \<Longrightarrow> length rest < length pattern"
  using scanChunk_shorter [of pattern star chunk rest] by simp

text \<open>After a failed match the rest of the pattern is still checked for syntax.\<close>

function checkRemainder :: "string \<Rightarrow> match_error + bool" where
  "checkRemainder pattern =
     (if pattern = [] then Inr False
      else case scanChunk pattern of
             (star, chunk, rest) \<Rightarrow>
               (case matchChunk chunk [] of
                  Inl e \<Rightarrow> Inl e
                | Inr t \<Rightarrow> checkRemainder rest))"
  by pat_completeness auto
termination
  by (relation "measure length") (auto intro: scanChunk_shorter_sym)

function Match :: "string \<Rightarrow> string \<Rightarrow> match_error + bool" where
  "Match pattern name =
     (if pattern = [] then Inr (name = [])
      else case scanChunk pattern of
             (star, chunk, rest) \<Rightarrow>
               (if star \<and> chunk = [] then Inr (\<not> Contains name [Separator])
                else case matchChunk chunk name of
                       Inl e \<Rightarrow> Inl e
                     | Inr r \<Rightarrow>
                         (if r \<noteq> None \<and> (the r = [] \<or> rest \<noteq> []) then Match rest (the r)
                          else if star then
                            (case starLoop chunk (rest = []) name of
                               Inl e \<Rightarrow> Inl e
                             | Inr None \<Rightarrow> checkRemainder rest
                             | Inr (Some t) \<Rightarrow> Match rest t)
                          else checkRemainder rest)))"
  by pat_completeness auto
termination
  by (relation "measure (\<lambda>(pattern, name). length pattern)")
     (auto intro: scanChunk_shorter_sym)

declare checkRemainder.simps [simp del] Match.simps [simp del]

section \<open>The policy engine (internal/policy/engine.go)\<close>

type_synonym PolicyAction = string

definition ActionAllow :: PolicyAction where "ActionAllow = ''allow''"
definition ActionBlock :: PolicyAction where "ActionBlock = ''block''"
definition ActionAudit :: PolicyAction where "ActionAudit = ''audit''"
definition ActionPause :: PolicyAction where "ActionPause = ''pause''"

record Rule =
  Pattern :: string
  Action :: PolicyAction
  Reason :: string

record RulesConfig =
  Allow :: "Rule list"
  Block :: "Rule list"

text \<open>The result of an evaluation. A field the Go code leaves out of the struct literal
  has its zero value: no rule, the empty reason.\<close>

record Result =
  Allowed :: bool
  Action :: PolicyAction
  Rule :: "Rule option"
  Reason :: string

definition matchPattern :: "string \<Rightarrow> string \<Rightarrow> bool" where
  "matchPattern pattern command =
     (if HasSuffix pattern '' *'' \<and>
         (let prefix = TrimSuffix pattern '' *''
          in command = prefix \<or> HasPrefix command (prefix @ '' '')) then True
      else if HasPrefix pattern ''*'' then HasSuffix command (TrimPrefix pattern ''*'')
      else if command = pattern then True
      else (case Match pattern command of Inl e \<Rightarrow> False | Inr matched \<Rightarrow> matched))"

text \<open>The two loops of \<open>EvaluateCommand\<close>: the first rule of the list that matches.\<close>

fun firstMatch :: "Rule list \<Rightarrow> string \<Rightarrow> Rule option" where
  "firstMatch [] command = None"
| "firstMatch (rule # rules) command =
     (if matchPattern (Pattern rule) command then Some rule else firstMatch rules command)"

definition EvaluateCommand :: "RulesConfig \<Rightarrow> string \<Rightarrow> Result" where
  "EvaluateCommand rules command0 =
     (let command = TrimSpace command0 in
      case firstMatch (Block rules) command of
        Some rule \<Rightarrow>
          \<lparr>Allowed = False, Action = ActionBlock, Rule = Some rule, Reason = Rule.Reason rule\<rparr>
      | None \<Rightarrow>
          (case firstMatch (Allow rules) command of
             Some rule \<Rightarrow>
               \<lparr>Allowed = True, Action = ActionAllow, Rule = Some rule, Reason = []\<rparr>
           | None \<Rightarrow>
               \<lparr>Allowed = False, Action = ActionBlock, Rule = None,
                Reason = ''Command not in allowlist''\<rparr>))"

section \<open>The policy artifact (generatePolicyMount)\<close>

record policyRule =
  Pattern :: string
  Reason :: string

record policyFile =
  Allow :: "policyRule list"
  Block :: "policyRule list"

text \<open>The rule set as it is written to \<open>policy.json\<close>: the pattern of every allow rule,
  the pattern and the reason of every block rule. The JSON text itself is not modelled:
  the shell reads back, with \<open>jq\<close>, the fields written here.\<close>

definition generatePolicy :: "RulesConfig \<Rightarrow> policyFile" where
  "generatePolicy cfg =
     \<lparr>policyFile.Allow =
        map (\<lambda>r. \<lparr>policyRule.Pattern = Rule.Pattern r, policyRule.Reason = []\<rparr>)
          (RulesConfig.Allow cfg),
      policyFile.Block =
        map (\<lambda>r. \<lparr>policyRule.Pattern = Rule.Pattern r, policyRule.Reason = Rule.Reason r\<rparr>)
          (RulesConfig.Block cfg)\<rparr>"

section \<open>The enforcement shell (docker/sandbox/claudeshield-shell.sh)\<close>

text \<open>
  Pattern matching of \<open>case\<close> in bash: \<open>*\<close> matches any string (a slash too),
  \<open>?\<close> one character, a bracket expression one character of its set, a backslash
  takes the next character literally. A bracket expression may start with \<open>!\<close> or
  \<open>^\<close> (negation) and with a literal \<open>]\<close>; a \<open>[\<close> that is never closed stands for
  itself. Character classes such as \<open>[:alpha:]\<close> and locale collation are not
  modelled.
\<close>

definition readChar :: "string \<Rightarrow> (char \<times> string) option" where
  "readChar ps =
     (case ps of
        [] \<Rightarrow> None
      | c # cs \<Rightarrow>
          (if c = backslash then (case cs of [] \<Rightarrow> None | d # ds \<Rightarrow> Some (d, ds))
           else Some (c, cs)))"

definition bracketItem :: "string \<Rightarrow> ((char \<times> char) \<times> string) option" where
  "bracketItem ps =
     (case readChar ps of
        None \<Rightarrow> None
      | Some (lo, r1) \<Rightarrow>
          (if 2 \<le> length r1 \<and> hd r1 = CHR ''-'' \<and> hd (tl r1) \<noteq> CHR '']'' then
             (case readChar (tl r1) of
                None \<Rightarrow> None
              | Some (hi, r2) \<Rightarrow> Some ((lo, hi), r2))
           else Some ((lo, lo), r1)))"

lemma readChar_shorter: "readChar ps = Some (c, rest) \<Longrightarrow> length rest < length ps"
  by (auto simp: readChar_def split: list.splits if_splits)

lemma bracketItem_shorter: "bracketItem ps = Some (item, rest) \<Longrightarrow> length rest < length ps"
proof -
  assume a: "bracketItem ps = Some (item, rest)"
  then obtain lo r1 where r: "readChar ps = Some (lo, r1)"
    by (auto simp: bracketItem_def split: option.splits)
  then have l1: "length r1 < length ps" by (rule readChar_shorter)
  show ?thesis
  proof (cases "2 \<le> length r1 \<and> hd r1 = CHR ''-'' \<and> hd (tl r1) \<noteq> CHR '']''")
    case True
    then obtain hi where "readChar (tl r1) = Some (hi, rest)"
      using a r by (auto simp: bracketItem_def split: option.splits)
    then have "length rest < length (tl r1)" by (rule readChar_shorter)
    then show ?thesis using l1 by simp
  next
    case False
    then have "rest = r1" using a r by (auto simp: bracketItem_def)
    then show ?thesis using l1 by simp
  qed
qed

function scanBracket :: "string \<Rightarrow> bool \<Rightarrow> (char \<times> char) list \<Rightarrow> ((char \<times> char) list \<times> string) option" where
  "scanBracket ps first acc =
     (if ps = [] then None
      else if hd ps = CHR '']'' \<and> \<not> first then Some (acc, tl ps)
      else case bracketItem ps of
             None \<Rightarrow> None
           | Some (item, rest) \<Rightarrow> scanBracket rest False (item # acc))"
  by pat_completeness auto
termination
  by (relation "measure (\<lambda>(ps, first, acc). length ps)")
     (auto intro: bracketItem_shorter)

lemma scanBracket_shorter:
  "scanBracket ps first acc = Some (items, rest) \<Longrightarrow> length rest < length ps"
proof (induction ps first acc rule: scanBracket.induct)
  case (1 ps first acc)
  show ?case
  proof (cases "ps = [] \<or> (hd ps = CHR '']'' \<and> \<not> first)")
    case True
    with "1.prems" show ?thesis by (cases ps) (auto split: if_splits)
  next
    case False
    then obtain item r where b: "bracketItem ps = Some (item, r)"
      using "1.prems" by (auto split: option.splits if_splits)
    then have "scanBracket r False (item # acc) = Some (items, rest)"
      using "1.prems" False by (auto split: if_splits)
    then have "length rest < length r"
      using "1.IH" False b by auto
    moreover have "length r < length ps" using b by (rule bracketItem_shorter)
    ultimately show ?thesis by simp
  qed
qed

declare scanBracket.simps [simp del]

definition parseBracket :: "string \<Rightarrow> (bool \<times> (char \<times> char) list \<times> string) option" where
  "parseBracket ps =
     (let negated = (ps \<noteq> [] \<and> (hd ps = CHR ''!'' \<or> hd ps = CHR ''^''))
      in case scanBracket (if negated then tl ps else ps) True [] of
           None \<Rightarrow> None
         | Some (items, rest) \<Rightarrow> Some (negated, items, rest))"

lemma parseBracket_shorter:
  "parseBracket ps = Some (negated, items, rest) \<Longrightarrow> length rest < length ps"
  by (cases ps)
     (auto simp: parseBracket_def Let_def split: option.splits if_splits
           dest!: scanBracket_shorter)

function bash_glob :: "string \<Rightarrow> string \<Rightarrow> bool" where
  "bash_glob [] s = (s = [])"
| "bash_glob (p # ps) s =
     (if p = CHR ''*'' then
        (bash_glob ps s \<or> (case s of [] \<Rightarrow> False | c # t \<Rightarrow> bash_glob (p # ps) t))
      else if p = CHR ''?'' then
        (case s of [] \<Rightarrow> False | c # t \<Rightarrow> bash_glob ps t)
      else if p = CHR ''['' then
        (case parseBracket ps of
           None \<Rightarrow> (case s of [] \<Rightarrow> False | c # t \<Rightarrow> c = p \<and> bash_glob ps t)
         | Some (negated, items, rest) \<Rightarrow>
             (case s of
                [] \<Rightarrow> False
              | c # t \<Rightarrow>
                  (list_ex (\<lambda>(lo, hi). inRange lo c hi) items \<noteq> negated) \<and> bash_glob rest t))
      else if p = backslash then
        (case ps of
           [] \<Rightarrow> s = [backslash]
         | q # qs \<Rightarrow> (case s of [] \<Rightarrow> False | c # t \<Rightarrow> c = q \<and> bash_glob qs t))
      else (case s of [] \<Rightarrow> False | c # t \<Rightarrow> c = p \<and> bash_glob ps t))"
  by pat_completeness auto
termination
  by (relation "measures [\<lambda>(p, s). length p, \<lambda>(p, s). length s]")
     (auto dest!: parseBracket_shorter)

text \<open>\<open>match_pattern\<close>: the test \<open>[[ "$pattern" == *" *" ]]\<close> is a suffix test,
  \<open>${pattern% \*}\<close> removes that suffix, \<open>[[ "$cmd" == "$prefix "* ]]\<close> is a prefix
  test; likewise for the leading star. Unlike the host engine, each of the two first
  branches returns at once.\<close>

definition match_pattern :: "string \<Rightarrow> string \<Rightarrow> bool" where
  "match_pattern pattern cmd =
     (if HasSuffix pattern '' *'' then
        (let prefix = TrimSuffix pattern '' *''
         in cmd = prefix \<or> HasPrefix cmd (prefix @ '' ''))
      else if HasPrefix pattern ''*'' then HasSuffix cmd (TrimPrefix pattern ''*'')
      else if cmd = pattern then True
      else bash_glob pattern cmd)"

fun firstShellMatch :: "policyRule list \<Rightarrow> string \<Rightarrow> policyRule option" where
  "firstShellMatch [] cmd = None"
| "firstShellMatch (r # rs) cmd =
     (if match_pattern (policyRule.Pattern r) cmd then Some r else firstShellMatch rs cmd)"

text \<open>A line of the shell's audit log: action, command, reason.\<close>

type_synonym log_entry = "string \<times> string \<times> string"

text \<open>\<open>check_policy\<close> returns the exit status (0 permits) and what it logged. The policy
  file is \<open>None\<close> when \<open>/etc/claudeshield/policy.json\<close> does not exist. A block rule
  written without a reason is reported as "Blocked by policy".\<close>

definition check_policy :: "policyFile option \<Rightarrow> string \<Rightarrow> nat \<times> log_entry list" where
  "check_policy file cmd =
     (case file of
        None \<Rightarrow> (0, [])
      | Some pf \<Rightarrow>
          (case firstShellMatch (policyFile.Block pf) cmd of
             Some r \<Rightarrow>
               (1, [(''block'', cmd,
                     if policyRule.Reason r = [] then ''Blocked by policy''
                     else policyRule.Reason r)])
           | None \<Rightarrow>
               (case firstShellMatch (policyFile.Allow pf) cmd of
                  Some r \<Rightarrow> (0, [(''allow'', cmd, [])])
                | None \<Rightarrow> (1, [(''block'', cmd, ''Command not in allowlist'')]))))"

text \<open>The shell called as \<open>-c cmd\<close>: exit status 126 when the policy denies, otherwise
  the command is handed to \<open>/bin/bash -c\<close>.\<close>

datatype shell_action = Exit nat | ExecBash string

definition shell_c :: "policyFile option \<Rightarrow> string \<Rightarrow> shell_action" where
  "shell_c file full_cmd =
     (if fst (check_policy file full_cmd) \<noteq> 0 then Exit 126 else ExecBash full_cmd)"

section \<open>Rule sets of the repository\<close>

text \<open>The rules of \<open>DefaultConfig\<close> (internal/config/config.go).\<close>

definition allowRule :: "string \<Rightarrow> Rule" where
  "allowRule p = \<lparr>Rule.Pattern = p, Rule.Action = ActionAllow, Rule.Reason = []\<rparr>"

definition blockRule :: "string \<Rightarrow> string \<Rightarrow> Rule" where
  "blockRule p r = \<lparr>Rule.Pattern = p, Rule.Action = ActionBlock, Rule.Reason = r\<rparr>"

definition DefaultRules :: RulesConfig where
  "DefaultRules =
     \<lparr>RulesConfig.Allow =
        [allowRule ''git *'', allowRule ''npm *'', allowRule ''node *'', allowRule ''python *'',
         allowRule ''pip *'', allowRule ''go *'', allowRule ''cargo *'', allowRule ''make *'',
         allowRule ''cat *'', allowRule ''ls *'', allowRule ''find *'', allowRule ''grep *''],
      RulesConfig.Block =
        [blockRule ''sudo *'' ''Privilege escalation not allowed'',
         blockRule ''rm -rf /'' ''Root filesystem deletion blocked'',
         blockRule ''rm -rf /*'' ''Root filesystem deletion blocked'',
         blockRule ''chmod 777 *'' ''Overly permissive permissions blocked'',
         blockRule ''curl * | sh'' ''Remote code execution blocked'',
         blockRule ''curl * | bash'' ''Remote code execution blocked'',
         blockRule ''wget * | sh'' ''Remote code execution blocked'',
         blockRule ''dd if=*'' ''Raw disk access blocked'',
         blockRule ''mkfs.*'' ''Filesystem formatting blocked'',
         blockRule '':(){ :|:& };:'' ''Fork bomb blocked'']\<rparr>"

text \<open>The rules of the test \<open>TestBlockRulesTakePriority\<close>.\<close>

definition PriorityRules :: RulesConfig where
  "PriorityRules =
     \<lparr>RulesConfig.Allow = [allowRule ''rm *''],
      RulesConfig.Block = [blockRule ''rm -rf /'' ''blocked'']\<rparr>"

section \<open>Paths (\<open>path/filepath\<close>, Unix)\<close>

text \<open>\<open>filepath.Base\<close>: the last element of the path, trailing slashes removed; "." for
  the empty path, "/" for a path of slashes only.\<close>

definition Base :: "string \<Rightarrow> string" where
  "Base path =
     (if path = [] then ''.''
      else let p = rev (dropWhile (\<lambda>c. c = Separator) (rev path));
               e = rev (takeWhile (\<lambda>c. c \<noteq> Separator) (rev p))
           in if e = [] then [Separator] else e)"

text \<open>\<open>filepath.Clean\<close>. The output buffer is a string; \<open>backtrack\<close> is the loop of the
  \<open>..\<close> case, which moves the write index back to the previous separator, and
  \<open>dotdot\<close> is the index a \<open>..\<close> cannot go behind.\<close>

function backtrack :: "string \<Rightarrow> nat \<Rightarrow> nat \<Rightarrow> nat" where
  "backtrack out dotdot w =
     (if w > dotdot \<and> out ! w \<noteq> Separator then backtrack out dotdot (w - 1) else w)"
  by pat_completeness auto
termination
  by (relation "measure (\<lambda>(out, dotdot, w). w)") auto

declare backtrack.simps [simp del]

function cleanLoop :: "bool \<Rightarrow> string \<Rightarrow> string \<Rightarrow> nat \<Rightarrow> string" where
  "cleanLoop rooted [] out dotdot = out"
| "cleanLoop rooted (c # cs) out dotdot =
     (if c = Separator then cleanLoop rooted cs out dotdot
      else if c = CHR ''.'' \<and> (cs = [] \<or> hd cs = Separator) then cleanLoop rooted cs out dotdot
      else if c = CHR ''.'' \<and> hd cs = CHR ''.'' \<and> (tl cs = [] \<or> hd (tl cs) = Separator) then
        (if length out > dotdot then
           cleanLoop rooted (tl cs) (take (backtrack out dotdot (length out - 1)) out) dotdot
         else if \<not> rooted then
           (let out1 = (if out \<noteq> [] then out @ [Separator] else out) @ ''..''
            in cleanLoop rooted (tl cs) out1 (length out1))
         else cleanLoop rooted (tl cs) out dotdot)
      else
        (let out1 = (if (rooted \<and> length out \<noteq> 1) \<or> (\<not> rooted \<and> length out \<noteq> 0)
                     then out @ [Separator] else out)
         in cleanLoop rooted (dropWhile (\<lambda>x. x \<noteq> Separator) cs)
              (out1 @ c # takeWhile (\<lambda>x. x \<noteq> Separator) cs) dotdot))"
  by pat_completeness auto
termination
  by (relation "measure (\<lambda>(rooted, path, out, dotdot). length path)")
     (auto simp: length_dropWhile_le le_imp_less_Suc)

definition Clean :: "string \<Rightarrow> string" where
  "Clean path =
     (if path = [] then ''.''
      else let rooted = (hd path = Separator);
               out = (if rooted then cleanLoop True (tl path) [Separator] 1
                      else cleanLoop False path [] 0)
           in if out = [] then ''.'' else out)"

text \<open>\<open>filepath.Dir\<close>: all but the last element of the path, cleaned.\<close>

definition Dir :: "string \<Rightarrow> string" where
  "Dir path = Clean (rev (dropWhile (\<lambda>c. c \<noteq> Separator) (rev path)))"

text \<open>\<open>filepath.Join\<close>: the non-empty elements joined by a separator, cleaned.\<close>

definition filepath_Join :: "string list \<Rightarrow> string" where
  "filepath_Join elems =
     (let es = filter (\<lambda>e. e \<noteq> []) elems
      in if es = [] then [] else Clean (Join es [Separator]))"

section \<open>File access (\<open>EvaluateFileAccess\<close>)\<close>

text \<open>
  \<open>EvaluateFileAccess\<close> as the policy engine with the \<open>Config\<close> method has it (the
  engine \<open>generatePolicyMount\<close> calls): the base name and the parent directories of the
  path are tested. internal/policy/engine.go holds an earlier text of the function,
  which matched the path against glob patterns.
\<close>

definition sensitiveFiles :: "string list" where
  "sensitiveFiles =
     [''.env'', ''.npmrc'', ''.pypirc'', ''.bash_history'', ''.zsh_history'',
      ''.gitconfig'', ''id_rsa'', ''id_ed25519'']"

definition sensitiveParents :: "string list" where
  "sensitiveParents = [''.ssh'', ''.aws'', ''.gnupg'']"

definition sensitiveBlocked :: "string \<Rightarrow> Result" where
  "sensitiveBlocked path =
     \<lparr>Allowed = False, Action = ActionBlock, Rule = None,
      Reason = ''Access to sensitive file blocked: '' @ path\<rparr>"

definition EvaluateFileAccess :: "string \<Rightarrow> Result" where
  "EvaluateFileAccess path =
     (let base = Base path in
      if list_ex (\<lambda>name. base = name) sensitiveFiles then sensitiveBlocked path
      else if HasPrefix base ''.env.'' then sensitiveBlocked path
      else if list_ex (\<lambda>sd. Base (Dir path) = sd \<or> Contains path (''/'' @ sd @ ''/''))
                sensitiveParents then sensitiveBlocked path
      else if base = ''config.json'' \<and> Contains path ''.docker'' then sensitiveBlocked path
      else if HasPrefix path ''/workspace'' then
        \<lparr>Allowed = True, Action = ActionAllow, Rule = None, Reason = []\<rparr>
      else
        \<lparr>Allowed = False, Action = ActionBlock, Rule = None,
         Reason = ''Access outside workspace blocked: '' @ path\<rparr>)"

section \<open>Sessions, checkpoints and the outside world\<close>

type_synonym SessionState = string

definition SessionCreating :: SessionState where "SessionCreating = ''creating''"
definition SessionRunning :: SessionState where "SessionRunning = ''running''"
definition SessionPaused :: SessionState where "SessionPaused = ''paused''"
definition SessionStopped :: SessionState where "SessionStopped = ''stopped''"
definition SessionError :: SessionState where "SessionError = ''error''"

text \<open>A \<open>time.Time\<close> is a number (of milliseconds).\<close>

record Session =
  ID :: string
  ProjectDir :: string
  ContainerID :: string
  State :: SessionState
  AgentName :: string
  WorktreeDir :: string
  CreatedAt :: nat
  UpdatedAt :: nat

record Checkpoint =
  ID :: string
  SessionID :: string
  ImageID :: string
  Description :: string
  CreatedAt :: nat

record AuditEntry =
  Timestamp :: nat
  SessionID :: string
  AgentName :: string
  EventType :: string
  Command :: string
  FilePath :: string
  Action :: PolicyAction
  Reason :: string
  RulePattern :: string

text \<open>An entry of Docker's container list, as far as \<open>ListSessions\<close> reads it.\<close>

record Container =
  ID :: string
  Labels :: "string \<rightharpoonup> string"
  State :: string
  Created :: nat

text \<open>
  What the program does to the outside (the Docker daemon, git, the file system) is
  recorded as a trace of calls. The outside answers through \<open>env\<close>: each answer may
  depend on the calls made so far, and is otherwise arbitrary. An error is its message.
  \<open>CreateSession\<close> of the sandbox engine is taken as one such operation.
\<close>

datatype call =
    FilepathAbs string
  | Git "string list"
  | RemoveAll string
  | CreateSession string string
  | ContainerList
  | ContainerStop string nat
  | ContainerRemove string
  | ContainerCreate string string string
  | ContainerStart string
  | ContainerExecCreate string "string list" string
  | ContainerExecAttach string
  | ReadAll string
  | ContainerCommit string string string
  | MkdirAll string
  | WriteFile string

record env =
  now :: "call list \<Rightarrow> nat"
  abs_answer :: "call list \<Rightarrow> string \<Rightarrow> string + string"
  git_answer :: "call list \<Rightarrow> string list \<Rightarrow> string \<times> string option"
  create_session_answer :: "call list \<Rightarrow> string \<Rightarrow> string \<Rightarrow> string + Session"
  list_answer :: "call list \<Rightarrow> string + Container list"
  stop_answer :: "call list \<Rightarrow> string \<Rightarrow> string option"
  remove_answer :: "call list \<Rightarrow> string \<Rightarrow> string option"
  create_answer :: "call list \<Rightarrow> string \<Rightarrow> string \<Rightarrow> string + string"
  start_answer :: "call list \<Rightarrow> string \<Rightarrow> string option"
  exec_create_answer :: "call list \<Rightarrow> string \<Rightarrow> string list \<Rightarrow> string + string"
  exec_attach_answer :: "call list \<Rightarrow> string \<Rightarrow> string + string"
  read_answer :: "call list \<Rightarrow> string \<Rightarrow> string + string"
  commit_answer :: "call list \<Rightarrow> string \<Rightarrow> string \<Rightarrow> string + string"
  mkdir_answer :: "call list \<Rightarrow> string \<Rightarrow> string option"
  write_answer :: "call list \<Rightarrow> string \<Rightarrow> string option"

text \<open>The world: the calls made so far and the lines of the audit log.\<close>

record world =
  trace :: "call list"
  audit :: "AuditEntry list"

definition did :: "call \<Rightarrow> world \<Rightarrow> world" where
  "did c w = w\<lparr>trace := trace w @ [c]\<rparr>"

text \<open>\<open>Logger.Log\<close>: an entry without a time stamp gets the current time.\<close>

definition Log :: "env \<Rightarrow> AuditEntry \<Rightarrow> world \<Rightarrow> world" where
  "Log ev entry w =
     w\<lparr>audit := audit w @
         [if AuditEntry.Timestamp entry = 0
          then entry\<lparr>AuditEntry.Timestamp := now ev (trace w)\<rparr> else entry]\<rparr>"

text \<open>
  The verb \<open>%q\<close> (\<open>strconv.Quote\<close>): the string in double quotes, a quote and a
  backslash escaped, a control character written as its escape (\<open>\a \b \f \n \r \t \v\<close>)
  or as \<open>\x\<close> and two hex digits. A byte from 0x80 on is taken as part of a printable
  rune and copied.
\<close>

definition hexDigit :: "nat \<Rightarrow> char" where
  "hexDigit n = (if n < 10 then char_of (48 + n) else char_of (87 + n))"

definition quoteByte :: "char \<Rightarrow> string" where
  "quoteByte c =
     (if c = CHR 0x22 \<or> c = CHR 0x5C then [CHR 0x5C, c]
      else if (32::nat) \<le> of_char c \<and> of_char c \<noteq> (127::nat) then [c]
      else if c = CHR 0x07 then [CHR 0x5C, CHR ''a'']
      else if c = CHR 0x08 then [CHR 0x5C, CHR ''b'']
      else if c = CHR 0x0C then [CHR 0x5C, CHR ''f'']
      else if c = CHR 0x0A then [CHR 0x5C, CHR ''n'']
      else if c = CHR 0x0D then [CHR 0x5C, CHR ''r'']
      else if c = CHR 0x09 then [CHR 0x5C, CHR ''t'']
      else if c = CHR 0x0B then [CHR 0x5C, CHR ''v'']
      else [CHR 0x5C, CHR ''x'', hexDigit (of_char c div 16), hexDigit (of_char c mod 16)])"

definition quote :: "string \<Rightarrow> string" where
  "quote s = [CHR 0x22] @ concat (map quoteByte s) @ [CHR 0x22]"

section \<open>The sandbox engine (\<open>StopSession\<close>, \<open>ExecCommand\<close>, \<open>ListSessions\<close>)\<close>

text \<open>The engine holds a policy engine (its rule set) or none, and an audit logger or
  none.\<close>

record Engine =
  policy :: "RulesConfig option"
  auditor :: bool

definition ContainerLabel :: string where
  "ContainerLabel = ''claudeshield.managed''"

definition label :: "Container \<Rightarrow> string \<Rightarrow> string" where
  "label c k = (case Container.Labels c k of None \<Rightarrow> [] | Some v \<Rightarrow> v)"

definition StopSession :: "env \<Rightarrow> Engine \<Rightarrow> world \<Rightarrow> Session \<Rightarrow> string option \<times> Session \<times> world" where
  "StopSession ev e w session =
     (let w1 = did (ContainerStop (Session.ContainerID session) 10) w in
      case stop_answer ev (trace w) (Session.ContainerID session) of
        Some err \<Rightarrow> (Some (''stopping container: '' @ err), session, w1)
      | None \<Rightarrow>
          (let w2 = did (ContainerRemove (Session.ContainerID session)) w1 in
           case remove_answer ev (trace w1) (Session.ContainerID session) of
             Some err \<Rightarrow> (Some (''removing container: '' @ err), session, w2)
           | None \<Rightarrow>
               (let session1 = session\<lparr>Session.State := SessionStopped,
                                         Session.UpdatedAt := now ev (trace w2)\<rparr>;
                    w3 = (if auditor e then
                            Log ev \<lparr>AuditEntry.Timestamp = now ev (trace w2),
                                    AuditEntry.SessionID = Session.ID session,
                                    AuditEntry.AgentName = Session.AgentName session,
                                    AuditEntry.EventType = ''session_stopped'',
                                    AuditEntry.Command = [], AuditEntry.FilePath = [],
                                    AuditEntry.Action = ActionAllow, AuditEntry.Reason = [],
                                    AuditEntry.RulePattern = []\<rparr> w2
                          else w2)
                in (None, session1, w3))))"

definition ExecCommand :: "env \<Rightarrow> Engine \<Rightarrow> world \<Rightarrow> Session \<Rightarrow> string list \<Rightarrow> (string + string) \<times> world" where
  "ExecCommand ev e w session cmd =
     (let commandStr = Join cmd '' '';
          checked =
            (case policy e of
               None \<Rightarrow> (True, [], w)
             | Some rules \<Rightarrow>
                 (let result = EvaluateCommand rules commandStr;
                      w1 = (if auditor e then
                              Log ev \<lparr>AuditEntry.Timestamp = now ev (trace w),
                                      AuditEntry.SessionID = Session.ID session,
                                      AuditEntry.AgentName = Session.AgentName session,
                                      AuditEntry.EventType = ''command_exec'',
                                      AuditEntry.Command = commandStr, AuditEntry.FilePath = [],
                                      AuditEntry.Action = Result.Action result,
                                      AuditEntry.Reason = Result.Reason result,
                                      AuditEntry.RulePattern =
                                        (case Result.Rule result of
                                           None \<Rightarrow> [] | Some r \<Rightarrow> Rule.Pattern r)\<rparr> w
                            else w)
                  in (Allowed result, Result.Reason result, w1)))
      in case checked of
           (allowed, reason, w1) \<Rightarrow>
             if \<not> allowed then
               (Inl (''policy blocked: '' @ commandStr @ '' (reason: '' @ reason @ '')''), w1)
             else
               (let w2 = did (ContainerExecCreate (Session.ContainerID session) cmd ''/workspace'') w1 in
                case exec_create_answer ev (trace w1) (Session.ContainerID session) cmd of
                  Inl err \<Rightarrow> (Inl (''creating exec: '' @ err), w2)
                | Inr execID \<Rightarrow>
                    (let w3 = did (ContainerExecAttach execID) w2 in
                     case exec_attach_answer ev (trace w2) execID of
                       Inl err \<Rightarrow> (Inl (''attaching to exec: '' @ err), w3)
                     | Inr reader \<Rightarrow>
                         (let w4 = did (ReadAll reader) w3 in
                          case read_answer ev (trace w3) reader of
                            Inl err \<Rightarrow> (Inl (''reading exec output: '' @ err), w4)
                          | Inr output \<Rightarrow> (Inr output, w4)))))"

definition sessionOf :: "Container \<Rightarrow> Session" where
  "sessionOf c =
     \<lparr>Session.ID = label c ''claudeshield.session'',
      Session.ProjectDir = label c ''claudeshield.project'',
      Session.ContainerID = Container.ID c,
      Session.State =
        (if Container.State c = ''exited'' then SessionStopped
         else if Container.State c = ''paused'' then SessionPaused else SessionRunning),
      Session.AgentName = label c ''claudeshield.agent'',
      Session.WorktreeDir = [],
      Session.CreatedAt = Container.Created c,
      Session.UpdatedAt = 0\<rparr>"

definition ListSessions :: "env \<Rightarrow> world \<Rightarrow> (string + Session list) \<times> world" where
  "ListSessions ev w =
     (let w1 = did ContainerList w in
      case list_answer ev (trace w) of
        Inl err \<Rightarrow> (Inl (''listing containers: '' @ err), w1)
      | Inr containers \<Rightarrow>
          (Inr (map sessionOf (filter (\<lambda>c. label c ContainerLabel = ''true'') containers)), w1))"

section \<open>The orchestrator (internal/orchestrator/orchestrator.go)\<close>

text \<open>The map from agent names to sessions. The Go map holds pointers: where
  \<open>StopSession\<close> changes the session it was given, the entry of the map changes with
  it.\<close>

record Orchestrator =
  engine :: Engine
  sessions :: "string \<rightharpoonup> Session"

definition run_git :: "env \<Rightarrow> string list \<Rightarrow> world \<Rightarrow> (string \<times> string option) \<times> world" where
  "run_git ev args w = (git_answer ev (trace w) args, did (Git args) w)"

definition createWorktree :: "env \<Rightarrow> world \<Rightarrow> string \<Rightarrow> string \<Rightarrow> (string + string) \<times> world" where
  "createWorktree ev w projectDir agentName =
     (let branchName = ''claudeshield/'' @ agentName;
          worktreeDir = filepath_Join [projectDir, ''.claudeshield'', ''worktrees'', agentName];
          w1 = snd (run_git ev [''-C'', projectDir, ''worktree'', ''prune''] w);
          w2 = did (RemoveAll worktreeDir) w1;
          w3 = snd (run_git ev [''-C'', projectDir, ''branch'', ''-D'', branchName] w2);
          w4 = snd (run_git ev [''-C'', projectDir, ''branch'', branchName] w3)
      in case run_git ev [''-C'', projectDir, ''worktree'', ''add'', worktreeDir, branchName] w4 of
           ((out, Some err), w5) \<Rightarrow> (Inl (''git worktree add: '' @ out @ '': '' @ err), w5)
         | ((out, None), w5) \<Rightarrow> (Inr worktreeDir, w5))"

definition removeWorktree :: "env \<Rightarrow> world \<Rightarrow> string \<Rightarrow> string \<Rightarrow> string option \<times> world" where
  "removeWorktree ev w projectDir worktreeDir =
     (case run_git ev [''-C'', projectDir, ''worktree'', ''remove'', ''--force'', worktreeDir] w of
        ((out, Some err), w1) \<Rightarrow> (Some (''git worktree remove: '' @ out @ '': '' @ err), w1)
      | ((out, None), w1) \<Rightarrow> (None, w1))"

definition mergeWorktree :: "env \<Rightarrow> world \<Rightarrow> string \<Rightarrow> string \<Rightarrow> string option \<times> world" where
  "mergeWorktree ev w projectDir agentName =
     (let branchName = ''claudeshield/'' @ agentName;
          worktreeDir = filepath_Join [projectDir, ''.claudeshield'', ''worktrees'', agentName];
          w1 = snd (run_git ev [''-C'', worktreeDir, ''add'', ''-A''] w);
          w2 = snd (run_git ev [''-C'', worktreeDir, ''commit'', ''-m'',
                                ''ClaudeShield: agent '' @ agentName @ '' changes''] w1)
      in case run_git ev [''-C'', projectDir, ''merge'', ''--no-ff'', ''-m'',
                          ''Merge agent '' @ agentName, branchName] w2 of
           ((out, Some err), w3) \<Rightarrow>
             (Some (''merge failed (resolve conflicts manually): '' @ out @ '': '' @ err), w3)
         | ((out, None), w3) \<Rightarrow>
             (None, snd (run_git ev [''-C'', projectDir, ''branch'', ''-d'', branchName] w3)))"

definition SpawnAgent :: "env \<Rightarrow> Orchestrator \<Rightarrow> world \<Rightarrow> string \<Rightarrow> string \<Rightarrow> 'cfg
                          \<Rightarrow> (string + Session) \<times> Orchestrator \<times> world" where
  "SpawnAgent ev orch w projectDir0 agentName cfg =
     (case sessions orch agentName of
        Some existing \<Rightarrow> (Inl (''agent '' @ quote agentName @ '' already exists''), orch, w)
      | None \<Rightarrow>
          (let w1 = did (FilepathAbs projectDir0) w in
           case abs_answer ev (trace w) projectDir0 of
             Inl err \<Rightarrow> (Inl (''resolving project dir: '' @ err), orch, w1)
           | Inr projectDir \<Rightarrow>
               (case createWorktree ev w1 projectDir agentName of
                  (Inl err, w2) \<Rightarrow>
                    (Inl (''creating worktree for '' @ agentName @ '': '' @ err), orch, w2)
                | (Inr worktreeDir, w2) \<Rightarrow>
                    (let w3 = did (CreateSession worktreeDir agentName) w2 in
                     case create_session_answer ev (trace w2) worktreeDir agentName of
                       Inl err \<Rightarrow>
                         (Inl (''creating sandbox for '' @ agentName @ '': '' @ err), orch,
                          snd (removeWorktree ev w3 projectDir worktreeDir))
                     | Inr session0 \<Rightarrow>
                         (let session = session0\<lparr>Session.WorktreeDir := worktreeDir\<rparr>
                          in (Inr session,
                              orch\<lparr>sessions := (sessions orch)(agentName \<mapsto> session)\<rparr>,
                              w3))))))"

text \<open>The session \<open>StopAgent\<close> works on: the entry of the map, or else the first session
  of the engine's listing that bears the agent's name.\<close>

definition findSession :: "env \<Rightarrow> Orchestrator \<Rightarrow> world \<Rightarrow> string \<Rightarrow> (string + Session) \<times> world" where
  "findSession ev orch w agentName =
     (case sessions orch agentName of
        Some session \<Rightarrow> (Inr session, w)
      | None \<Rightarrow>
          (case ListSessions ev w of
             (Inl err, w1) \<Rightarrow> (Inl (''listing sessions: '' @ err), w1)
           | (Inr listed, w1) \<Rightarrow>
               (case find (\<lambda>s. Session.AgentName s = agentName) listed of
                  None \<Rightarrow> (Inl (''agent '' @ quote agentName @ '' not found''), w1)
                | Some session \<Rightarrow> (Inr session, w1))))"

definition StopAgent :: "env \<Rightarrow> Orchestrator \<Rightarrow> world \<Rightarrow> string \<Rightarrow> bool
                         \<Rightarrow> string option \<times> Orchestrator \<times> world" where
  "StopAgent ev orch w agentName merge =
     (case findSession ev orch w agentName of
        (Inl err, w1) \<Rightarrow> (Some err, orch, w1)
      | (Inr session0, w1) \<Rightarrow>
          (case StopSession ev (engine orch) w1 session0 of
             (Some err, session, w2) \<Rightarrow> (Some (''stopping sandbox: '' @ err), orch, w2)
           | (None, session, w2) \<Rightarrow>
               (let orch1 = (if sessions orch agentName = None then orch
                             else orch\<lparr>sessions := (sessions orch)(agentName \<mapsto> session)\<rparr>);
                    merged = (if merge \<and> Session.WorktreeDir session \<noteq> []
                              then mergeWorktree ev w2 (Session.ProjectDir session) agentName
                              else (None, w2))
                in case merged of
                     (Some err, w3) \<Rightarrow> (Some (''merging worktree: '' @ err), orch1, w3)
                   | (None, w3) \<Rightarrow>
                       (let w4 = (if Session.WorktreeDir session \<noteq> []
                                  then snd (removeWorktree ev w3 (Session.ProjectDir session)
                                              (Session.WorktreeDir session))
                                  else w3)
                        in (None, orch1\<lparr>sessions := (sessions orch1)(agentName := None)\<rparr>, w4)))))"

section \<open>The rollback manager (package rollback)\<close>

record Manager =
  checkpoints :: "string \<rightharpoonup> Checkpoint list"
  storagePath :: string

text \<open>The verb \<open>%d\<close> on a number that is not negative.\<close>

fun decimal :: "nat \<Rightarrow> string" where
  "decimal n =
     (if n < 10 then [char_of (48 + n)] else decimal (n div 10) @ [char_of (48 + n mod 10)])"

declare decimal.simps [simp del]

text \<open>\<open>save\<close> writes the whole index to \<open>storagePath\<close>, when there is one; the text
  written is not modelled.\<close>

definition save :: "env \<Rightarrow> Manager \<Rightarrow> world \<Rightarrow> string option \<times> world" where
  "save ev m w =
     (if storagePath m = [] then (None, w)
      else let w1 = did (MkdirAll (Dir (storagePath m))) w in
           case mkdir_answer ev (trace w) (Dir (storagePath m)) of
             Some err \<Rightarrow> (Some err, w1)
           | None \<Rightarrow> (write_answer ev (trace w1) (storagePath m),
                       did (WriteFile (storagePath m)) w1))"

definition CreateCheckpoint :: "env \<Rightarrow> Manager \<Rightarrow> world \<Rightarrow> Session \<Rightarrow> string
                                \<Rightarrow> (string + Checkpoint) \<times> Manager \<times> world" where
  "CreateCheckpoint ev m w session description =
     (let cpID = ''cs-cp-'' @ decimal (now ev (trace w));
          reference = ''claudeshield/checkpoint:'' @ cpID;
          w1 = did (ContainerCommit (Session.ContainerID session) reference description) w
      in case commit_answer ev (trace w) (Session.ContainerID session) reference of
           Inl err \<Rightarrow> (Inl (''creating checkpoint: '' @ err), m, w1)
         | Inr imageID \<Rightarrow>
             (let cp = \<lparr>Checkpoint.ID = cpID, Checkpoint.SessionID = Session.ID session,
                        Checkpoint.ImageID = imageID, Checkpoint.Description = description,
                        Checkpoint.CreatedAt = now ev (trace w1)\<rparr>;
                  m1 = m\<lparr>checkpoints := (checkpoints m)(Session.ID session \<mapsto>
                            (case checkpoints m (Session.ID session) of
                               None \<Rightarrow> [] | Some cps \<Rightarrow> cps) @ [cp])\<rparr>
              in (Inr cp, m1, snd (save ev m1 w1))))"

text \<open>The scan of \<open>Rollback\<close> for its target: the first checkpoint with the id.\<close>

definition findCheckpoint :: "Checkpoint list \<Rightarrow> string \<Rightarrow> Checkpoint option" where
  "findCheckpoint cps checkpointID = find (\<lambda>cp. Checkpoint.ID cp = checkpointID) cps"

definition Rollback :: "env \<Rightarrow> Manager \<Rightarrow> world \<Rightarrow> Session \<Rightarrow> string
                        \<Rightarrow> string option \<times> Manager \<times> Session \<times> world" where
  "Rollback ev m w session checkpointID =
     (case checkpoints m (Session.ID session) of
        None \<Rightarrow> (Some (''no checkpoints for session '' @ Session.ID session), m, session, w)
      | Some cps \<Rightarrow>
          (case findCheckpoint cps checkpointID of
             None \<Rightarrow> (Some (''checkpoint '' @ checkpointID @ '' not found''), m, session, w)
           | Some target \<Rightarrow>
               (let w1 = did (ContainerStop (Session.ContainerID session) 5) w;
                    w2 = did (ContainerRemove (Session.ContainerID session)) w1;
                    w3 = did (ContainerCreate (Checkpoint.ImageID target) ''/workspace''
                                (Session.ID session)) w2
                in case create_answer ev (trace w2) (Checkpoint.ImageID target)
                          (Session.ID session) of
                     Inl err \<Rightarrow>
                       (Some (''creating container from checkpoint: '' @ err), m, session, w3)
                   | Inr respID \<Rightarrow>
                       (let w4 = did (ContainerStart respID) w3 in
                        case start_answer ev (trace w3) respID of
                          Some err \<Rightarrow>
                            (Some (''starting restored container: '' @ err), m, session, w4)
                        | None \<Rightarrow>
                            (None, m,
                             session\<lparr>Session.ContainerID := respID,
                                     Session.UpdatedAt := now ev (trace w4)\<rparr>, w4)))))"

definition ListCheckpoints :: "Manager \<Rightarrow> string \<Rightarrow> Checkpoint list" where
  "ListCheckpoints m sessionID = (case checkpoints m sessionID of None \<Rightarrow> [] | Some cps \<Rightarrow> cps)"

definition RollbackToLatest :: "env \<Rightarrow> Manager \<Rightarrow> world \<Rightarrow> Session
                                \<Rightarrow> string option \<times> Manager \<times> Session \<times> world" where
  "RollbackToLatest ev m w session =
     (case checkpoints m (Session.ID session) of
        None \<Rightarrow> (Some (''no checkpoints for session '' @ Session.ID session), m, session, w)
      | Some cps \<Rightarrow>
          (if cps = [] then
             (Some (''no checkpoints for session '' @ Session.ID session), m, session, w)
           else Rollback ev m w session (Checkpoint.ID (last cps))))"

section \<open>Predicates and concrete inputs of the properties\<close>

text \<open>The characters \<open>filepath.Match\<close> gives a meaning to, and the strings free of
  them.\<close>

definition isMeta :: "char \<Rightarrow> bool" where
  "isMeta c = (c = CHR ''*'' \<or> c = CHR ''?'' \<or> c = CHR ''['' \<or> c = backslash)"

definition literal :: "string \<Rightarrow> bool" where
  "literal p = list_all (\<lambda>c. \<not> isMeta c) p"

text \<open>A path that lies under the directory \<open>d\<close>: \<open>d\<close> is a component of the path,
  at its start or after a slash, and is followed by a slash.\<close>

definition liesUnder :: "string \<Rightarrow> string \<Rightarrow> bool" where
  "liesUnder d path = (Contains path (''/'' @ d @ ''/'') \<or> HasPrefix path (d @ ''/''))"

text \<open>A list of checkpoints whose ids are those of milliseconds before \<open>t\<close>.\<close>

definition createdBefore :: "nat \<Rightarrow> Checkpoint list \<Rightarrow> bool" where
  "createdBefore t cps =
     list_all (\<lambda>cp. list_ex (\<lambda>u. Checkpoint.ID cp = ''cs-cp-'' @ decimal u) [0..<t]) cps"

text \<open>An outside where every call succeeds, the clock advances with the calls and each
  new container gets an id of its own; the empty world, a running session, an
  orchestrator without agents and a manager without checkpoints.\<close>

definition okEnv :: env where
  "okEnv =
     \<lparr>now = (\<lambda>tr. Suc (length tr)),
      abs_answer = (\<lambda>tr p. Inr p),
      git_answer = (\<lambda>tr args. ([], None)),
      create_session_answer = (\<lambda>tr dir name.
         Inr \<lparr>Session.ID = ''cs-'' @ name, Session.ProjectDir = dir,
              Session.ContainerID = ''container-1'', Session.State = SessionRunning,
              Session.AgentName = name, Session.WorktreeDir = [],
              Session.CreatedAt = 1000, Session.UpdatedAt = 1000\<rparr>),
      list_answer = (\<lambda>tr. Inr []),
      stop_answer = (\<lambda>tr c. None),
      remove_answer = (\<lambda>tr c. None),
      create_answer = (\<lambda>tr image name. Inr (''restored-'' @ decimal (length tr))),
      start_answer = (\<lambda>tr c. None),
      exec_create_answer = (\<lambda>tr c cmd. Inr ''exec-1''),
      exec_attach_answer = (\<lambda>tr x. Inr ''reader-1''),
      read_answer = (\<lambda>tr r. Inr ''output''),
      commit_answer = (\<lambda>tr c ref. Inr (''image-of-'' @ ref)),
      mkdir_answer = (\<lambda>tr d. None),
      write_answer = (\<lambda>tr p. None)\<rparr>"

definition world0 :: world where
  "world0 = \<lparr>trace = [], audit = []\<rparr>"

definition session1 :: Session where
  "session1 =
     \<lparr>Session.ID = ''cs-x'', Session.ProjectDir = ''/proj'',
      Session.ContainerID = ''container-1'', Session.State = SessionRunning,
      Session.AgentName = ''x'', Session.WorktreeDir = [],
      Session.CreatedAt = 1000, Session.UpdatedAt = 1000\<rparr>"

definition orch0 :: Orchestrator where
  "orch0 = \<lparr>engine = \<lparr>policy = Some DefaultRules, auditor = True\<rparr>, sessions = Map.empty\<rparr>"

definition manager0 :: Manager where
  "manager0 = \<lparr>checkpoints = Map.empty, storagePath = ''/proj/.claudeshield/checkpoints.json''\<rparr>"

text \<open>The agent \<open>x\<close> spawned, then stopped without a merge.\<close>

definition spawned :: "(string + Session) \<times> Orchestrator \<times> world" where
  "spawned = SpawnAgent okEnv orch0 world0 ''/proj'' ''x'' ()"

definition stopped :: "string option \<times> Orchestrator \<times> world" where
  "stopped = StopAgent okEnv (fst (snd spawned)) (snd (snd spawned)) ''x'' False"

text \<open>Three checkpoints of the session, as three calls of \<open>CreateCheckpoint\<close> leave
  them (lemma \<open>threeCheckpoints_are\<close>): the manager that holds them and the world
  after the three commits.\<close>

definition threeCheckpoints :: "Manager \<times> world" where
  "threeCheckpoints =
     (case CreateCheckpoint okEnv manager0 world0 session1 ''first'' of
        (r1, m1, w1) \<Rightarrow>
          (case CreateCheckpoint okEnv m1 w1 session1 ''second'' of
             (r2, m2, w2) \<Rightarrow> snd (CreateCheckpoint okEnv m2 w2 session1 ''third'')))"

definition checkpoint1 :: Checkpoint where
  "checkpoint1 =
     \<lparr>Checkpoint.ID = ''cs-cp-1'', Checkpoint.SessionID = ''cs-x'',
      Checkpoint.ImageID = ''image-of-claudeshield/checkpoint:cs-cp-1'',
      Checkpoint.Description = ''first'', Checkpoint.CreatedAt = 2\<rparr>"

definition checkpoint2 :: Checkpoint where
  "checkpoint2 =
     \<lparr>Checkpoint.ID = ''cs-cp-4'', Checkpoint.SessionID = ''cs-x'',
      Checkpoint.ImageID = ''image-of-claudeshield/checkpoint:cs-cp-4'',
      Checkpoint.Description = ''second'', Checkpoint.CreatedAt = 5\<rparr>"

definition checkpoint3 :: Checkpoint where
  "checkpoint3 =
     \<lparr>Checkpoint.ID = ''cs-cp-7'', Checkpoint.SessionID = ''cs-x'',
      Checkpoint.ImageID = ''image-of-claudeshield/checkpoint:cs-cp-7'',
      Checkpoint.Description = ''third'', Checkpoint.CreatedAt = 8\<rparr>"

definition manager3 :: Manager where
  "manager3 =
     \<lparr>checkpoints = [''cs-x'' \<mapsto> [checkpoint1, checkpoint2, checkpoint3]],
      storagePath = ''/proj/.claudeshield/checkpoints.json''\<rparr>"

definition world3 :: world where
  "world3 =
     \<lparr>trace =
        [ContainerCommit ''container-1'' ''claudeshield/checkpoint:cs-cp-1'' ''first'',
         MkdirAll ''/proj/.claudeshield'', WriteFile ''/proj/.claudeshield/checkpoints.json'',
         ContainerCommit ''container-1'' ''claudeshield/checkpoint:cs-cp-4'' ''second'',
         MkdirAll ''/proj/.claudeshield'', WriteFile ''/proj/.claudeshield/checkpoints.json'',
         ContainerCommit ''container-1'' ''claudeshield/checkpoint:cs-cp-7'' ''third'',
         MkdirAll ''/proj/.claudeshield'', WriteFile ''/proj/.claudeshield/checkpoints.json''],
      audit = []\<rparr>"

text \<open>A rollback to the first checkpoint, then a rollback of the session so restored to
  the third; a rollback to the latest.\<close>

definition rolledBack :: "string option \<times> Manager \<times> Session \<times> world" where
  "rolledBack = Rollback okEnv manager3 world3 session1 ''cs-cp-1''"

definition rolledForward :: "string option \<times> Manager \<times> Session \<times> world" where
  "rolledForward =
     Rollback okEnv manager3 (snd (snd (snd rolledBack))) (fst (snd (snd rolledBack))) ''cs-cp-7''"

definition rolledToLatest :: "string option \<times> Manager \<times> Session \<times> world" where
  "rolledToLatest = RollbackToLatest okEnv manager3 world3 session1"

section \<open>Properties of the policy engine\<close>

lemma firstMatch_None_iff:
  "firstMatch rules c = None \<longleftrightarrow> \<not> list_ex (\<lambda>r. matchPattern (Rule.Pattern r) c) rules"
  by (induction rules) auto

lemma firstMatch_first:
  "list_ex (\<lambda>r. matchPattern (Rule.Pattern r) c) rules \<Longrightarrow>
   \<exists>pre r post. rules = pre @ r # post
      \<and> \<not> list_ex (\<lambda>x. matchPattern (Rule.Pattern x) c) pre
      \<and> matchPattern (Rule.Pattern r) c \<and> firstMatch rules c = Some r"
proof (induction rules)
  case Nil
  then show ?case by simp
next
  case (Cons a rules)
  show ?case
  proof (cases "matchPattern (Rule.Pattern a) c")
    case True
    then have "a # rules = [] @ a # rules \<and> \<not> list_ex (\<lambda>x. matchPattern (Rule.Pattern x) c) []
      \<and> matchPattern (Rule.Pattern a) c \<and> firstMatch (a # rules) c = Some a" by simp
    then show ?thesis by blast
  next
    case False
    with Cons.prems have "list_ex (\<lambda>r. matchPattern (Rule.Pattern r) c) rules" by simp
    from Cons.IH [OF this] obtain pre r post where
      h: "rules = pre @ r # post" "\<not> list_ex (\<lambda>x. matchPattern (Rule.Pattern x) c) pre"
         "matchPattern (Rule.Pattern r) c" "firstMatch rules c = Some r" by blast
    then have "a # rules = (a # pre) @ r # post \<and> \<not> list_ex (\<lambda>x. matchPattern (Rule.Pattern x) c) (a # pre)
      \<and> matchPattern (Rule.Pattern r) c \<and> firstMatch (a # rules) c = Some r"
      using False by simp
    then show ?thesis by blast
  qed
qed

lemma firstMatch_mem: "firstMatch rules c = Some r \<Longrightarrow> r \<in> set rules"
  by (induction rules) (auto split: if_splits)

text \<open>
  C1. Block precedence: when some block rule matches the trimmed command, the result is
  the blocked result of the first matching rule of the block list, with that rule's
  reason, whatever the allow list holds.
\<close>

theorem block_precedence:
  assumes "list_ex (\<lambda>r. matchPattern (Rule.Pattern r) (TrimSpace command)) (RulesConfig.Block rules)"
  shows "\<exists>pre r post. RulesConfig.Block rules = pre @ r # post
           \<and> \<not> list_ex (\<lambda>x. matchPattern (Rule.Pattern x) (TrimSpace command)) pre
           \<and> matchPattern (Rule.Pattern r) (TrimSpace command)
           \<and> EvaluateCommand rules command =
               \<lparr>Allowed = False, Action = ActionBlock, Rule = Some r, Reason = Rule.Reason r\<rparr>"
proof -
  from firstMatch_first [OF assms] obtain pre r post where
    h: "RulesConfig.Block rules = pre @ r # post"
       "\<not> list_ex (\<lambda>x. matchPattern (Rule.Pattern x) (TrimSpace command)) pre"
       "matchPattern (Rule.Pattern r) (TrimSpace command)"
       "firstMatch (RulesConfig.Block rules) (TrimSpace command) = Some r" by blast
  have "EvaluateCommand rules command =
      \<lparr>Allowed = False, Action = ActionBlock, Rule = Some r, Reason = Rule.Reason r\<rparr>"
    using h(4) by (simp add: EvaluateCommand_def Let_def)
  with h(1,2,3) show ?thesis by blast
qed

text \<open>The rules of \<open>TestBlockRulesTakePriority\<close>: \<open>rm -rf /\<close> is matched by the allow
  rule \<open>rm *\<close> and by the block rule, and is blocked.\<close>

theorem block_precedence_witness:
  "list_ex (\<lambda>r. matchPattern (Rule.Pattern r) (TrimSpace ''rm -rf /'')) (RulesConfig.Allow PriorityRules)
   \<and> list_ex (\<lambda>r. matchPattern (Rule.Pattern r) (TrimSpace ''rm -rf /'')) (RulesConfig.Block PriorityRules)
   \<and> \<not> Allowed (EvaluateCommand PriorityRules ''rm -rf /'')"
proof -
  have b: "list_ex (\<lambda>r. matchPattern (Rule.Pattern r) (TrimSpace ''rm -rf /'')) (RulesConfig.Block PriorityRules)"
    by code_simp
  have a: "list_ex (\<lambda>r. matchPattern (Rule.Pattern r) (TrimSpace ''rm -rf /'')) (RulesConfig.Allow PriorityRules)"
    by code_simp
  from block_precedence [OF b] have "\<not> Allowed (EvaluateCommand PriorityRules ''rm -rf /'')"
    by auto
  with a b show ?thesis by blast
qed

text \<open>
  C4, as amended. Default deny: a command that no block rule and no allow rule matches
  is blocked, with no rule and with the reason "Command not in allowlist".
\<close>

theorem default_deny:
  assumes "\<not> list_ex (\<lambda>r. matchPattern (Rule.Pattern r) (TrimSpace command)) (RulesConfig.Block rules)"
    and "\<not> list_ex (\<lambda>r. matchPattern (Rule.Pattern r) (TrimSpace command)) (RulesConfig.Allow rules)"
  shows "EvaluateCommand rules command =
           \<lparr>Allowed = False, Action = ActionBlock, Rule = None,
            Reason = ''Command not in allowlist''\<rparr>"
proof -
  have "firstMatch (RulesConfig.Block rules) (TrimSpace command) = None"
       "firstMatch (RulesConfig.Allow rules) (TrimSpace command) = None"
    using assms by (simp_all add: firstMatch_None_iff)
  then show ?thesis
    by (simp add: EvaluateCommand_def Let_def)
qed

text \<open>The default rules and the command \<open>some-unknown-tool --flag\<close>.\<close>

theorem default_deny_witness:
  "\<not> list_ex (\<lambda>r. matchPattern (Rule.Pattern r) (TrimSpace ''some-unknown-tool --flag'')) (RulesConfig.Block DefaultRules)
   \<and> \<not> list_ex (\<lambda>r. matchPattern (Rule.Pattern r) (TrimSpace ''some-unknown-tool --flag'')) (RulesConfig.Allow DefaultRules)
   \<and> \<not> Allowed (EvaluateCommand DefaultRules ''some-unknown-tool --flag'')
   \<and> Result.Reason (EvaluateCommand DefaultRules ''some-unknown-tool --flag'') = ''Command not in allowlist''"
proof -
  have b: "\<not> list_ex (\<lambda>r. matchPattern (Rule.Pattern r) (TrimSpace ''some-unknown-tool --flag'')) (RulesConfig.Block DefaultRules)"
    by code_simp
  have a: "\<not> list_ex (\<lambda>r. matchPattern (Rule.Pattern r) (TrimSpace ''some-unknown-tool --flag'')) (RulesConfig.Allow DefaultRules)"
    by code_simp
  from default_deny [OF b a] a b show ?thesis by simp
qed

text \<open>C4, as stated: the reason is not the string "not in allowlist".\<close>

theorem default_deny_reason_counterexample:
  "\<not> list_ex (\<lambda>r. matchPattern (Rule.Pattern r) (TrimSpace ''some-unknown-tool --flag''))
        (RulesConfig.Block DefaultRules)
   \<and> \<not> list_ex (\<lambda>r. matchPattern (Rule.Pattern r) (TrimSpace ''some-unknown-tool --flag''))
        (RulesConfig.Allow DefaultRules)
   \<and> Result.Reason (EvaluateCommand DefaultRules ''some-unknown-tool --flag'')
       \<noteq> ''not in allowlist''"
  by code_simp

text \<open>
  C5. A blocked result is expected to carry a non-empty reason. The block rule
  \<open>sudo *\<close> written without a reason blocks \<open>sudo ls\<close> with the empty reason:
  \<open>EvaluateCommand\<close> copies the rule's reason as it is.
\<close>

theorem EvaluateCommand_empty_reason:
  "\<not> Allowed (EvaluateCommand
        \<lparr>RulesConfig.Allow = [], RulesConfig.Block = [blockRule ''sudo *'' []]\<rparr> ''sudo ls'')
   \<and> Result.Reason (EvaluateCommand
        \<lparr>RulesConfig.Allow = [], RulesConfig.Block = [blockRule ''sudo *'' []]\<rparr> ''sudo ls'') = []"
  by code_simp

text \<open>The shell reports the same rule with a reason of its own.\<close>

lemma check_policy_default_reason:
  "check_policy (Some (generatePolicy
        \<lparr>RulesConfig.Allow = [], RulesConfig.Block = [blockRule ''sudo *'' []]\<rparr>)) ''sudo ls''
   = (1, [(''block'', ''sudo ls'', ''Blocked by policy'')])"
  by code_simp

text \<open>Every other blocked result has a reason: when each block rule has one, and for
  file access always.\<close>

lemma EvaluateCommand_reason_nonempty:
  assumes "\<not> list_ex (\<lambda>r. Rule.Reason r = []) (RulesConfig.Block rules)"
    and "\<not> Allowed (EvaluateCommand rules command)"
  shows "Result.Reason (EvaluateCommand rules command) \<noteq> []"
proof (cases "firstMatch (RulesConfig.Block rules) (TrimSpace command)")
  case None
  then show ?thesis using assms(2)
    by (auto simp: EvaluateCommand_def Let_def split: option.splits)
next
  case (Some r)
  then have "r \<in> set (RulesConfig.Block rules)" by (rule firstMatch_mem)
  then have "Rule.Reason r \<noteq> []" using assms(1) by (auto simp: list_ex_iff)
  then show ?thesis using Some by (simp add: EvaluateCommand_def Let_def)
qed

lemma EvaluateFileAccess_reason_nonempty:
  "\<not> Allowed (EvaluateFileAccess path) \<Longrightarrow> Result.Reason (EvaluateFileAccess path) \<noteq> []"
  by (auto simp: EvaluateFileAccess_def Let_def sensitiveBlocked_def split: if_splits)

text \<open>
  C2. The host engine and the enforcement shell are expected to decide alike. With the
  rules of \<open>TestBlockRulesTakePriority\<close> written to the policy file, the command
  \<open>rm -rf /\<close> followed by one space is blocked by the host engine, which trims it, and
  handed to bash by the shell, which compares it untrimmed.
\<close>

theorem shell_permits_what_host_blocks:
  "\<not> Allowed (EvaluateCommand PriorityRules ''rm -rf / '')
   \<and> shell_c (Some (generatePolicy PriorityRules)) ''rm -rf / '' = ExecBash ''rm -rf / ''"
  by code_simp

text \<open>In the other direction, with the default rules: a leading space makes the shell
  deny a command the host engine allows. The two matchers differ as well: the host
  engine goes on to the glob match where the space-star test fails, the shell does
  not.\<close>

lemma shell_denies_what_host_allows:
  "Allowed (EvaluateCommand DefaultRules '' git status'')
   \<and> shell_c (Some (generatePolicy DefaultRules)) '' git status'' = Exit 126"
  by code_simp

lemma matchers_differ:
  "matchPattern ''ls * *'' ''ls *.txt foo'' \<and> \<not> match_pattern ''ls * *'' ''ls *.txt foo''"
  by code_simp

section \<open>The space-star pattern\<close>

lemma HasPrefix_Nil [simp]: "HasPrefix s []"
  by (simp add: HasPrefix_def)

lemma HasPrefix_Cons: "HasPrefix s (c # p) \<longleftrightarrow> (s \<noteq> [] \<and> hd s = c \<and> HasPrefix (tl s) p)"
  by (cases s) (auto simp: HasPrefix_def)

lemma HasPrefix_append: "HasPrefix (p @ s) p"
  by (simp add: HasPrefix_def)

lemma HasSuffix_append: "HasSuffix (p @ x) x"
  by (simp add: HasSuffix_def)

lemma TrimSuffix_append: "TrimSuffix (p @ x) x = p"
  by (simp add: TrimSuffix_def HasSuffix_def)

lemma scanIdx_literal:
  "literal lit \<Longrightarrow> scanIdx (lit @ CHR ''*'' # rest) False = length lit"
  by (induction lit) (auto simp: literal_def isMeta_def backslash_def)

lemma matchChunkLoop_literal:
  "literal lit \<Longrightarrow>
   matchChunkLoop lit s failed =
     Inr (if \<not> failed \<and> HasPrefix s lit then Some (drop (length lit) s) else None)"
proof (induction lit arbitrary: s failed)
  case Nil
  then show ?case by simp
next
  case (Cons c lit)
  then have l: "literal lit" and c: "c \<noteq> CHR ''[''" "c \<noteq> CHR ''?''" "c \<noteq> backslash"
    by (auto simp: literal_def isMeta_def)
  show ?case
  proof (cases "failed \<or> s = []")
    case True
    then show ?thesis using c Cons.IH [OF l] by (auto simp: Let_def HasPrefix_Cons)
  next
    case False
    then obtain x t where s: "s = x # t" by (cases s) auto
    show ?thesis using False c s Cons.IH [OF l, of t "c \<noteq> x"]
      by (auto simp: Let_def HasPrefix_Cons)
  qed
qed

lemma scanChunk_literal_star:
  assumes "literal lit" and "lit \<noteq> []"
  shows "scanChunk (lit @ ''*'') = (False, lit, ''*'')"
proof -
  have h: "hd lit \<noteq> CHR ''*''" using assms by (cases lit) (auto simp: literal_def isMeta_def)
  then have d: "dropWhile (\<lambda>c. c = CHR ''*'') (lit @ ''*'') = lit @ ''*''"
    using assms(2) by (cases lit) auto
  have "hd (lit @ ''*'') = hd lit" using assms(2) by simp
  then show ?thesis
    using d h scanIdx_literal [OF assms(1), of "[]"] by (simp add: scanChunk_def Let_def)
qed

lemma checkRemainder_star: "checkRemainder ''*'' = Inr False"
  by code_simp

lemma Match_literal_star_no_prefix:
  assumes "literal lit" and "lit \<noteq> []" and "\<not> HasPrefix command lit"
  shows "Match (lit @ ''*'') command = Inr False"
proof -
  have m: "matchChunk lit command = Inr None"
    using matchChunkLoop_literal [OF assms(1), of command False] assms(3)
    by (simp add: matchChunk_def)
  show ?thesis
    using assms(2) scanChunk_literal_star [OF assms(1,2)] m checkRemainder_star
    by (subst Match.simps) simp
qed

lemma space_star_matches:
  "command = prefix \<or> HasPrefix command (prefix @ '' '') \<Longrightarrow> matchPattern (prefix @ '' *'') command"
  using HasSuffix_append [of prefix "'' *''"] TrimSuffix_append [of prefix "'' *''"]
  by (simp add: matchPattern_def Let_def)

lemma literal_space: "literal prefix \<Longrightarrow> literal (prefix @ '' '')"
  by (simp add: literal_def isMeta_def backslash_def)

lemma space_star_literal_only:
  assumes "literal prefix" and "matchPattern (prefix @ '' *'') command"
  shows "command = prefix \<or> HasPrefix command (prefix @ '' '')"
proof (rule ccontr)
  assume n: "\<not> (command = prefix \<or> HasPrefix command (prefix @ '' ''))"
  have lit: "literal (prefix @ '' '')" using assms(1) by (rule literal_space)
  have p: "prefix @ '' *'' = (prefix @ '' '') @ ''*''" by simp
  have nostar: "\<not> HasPrefix (prefix @ '' *'') ''*''"
    using assms(1) by (cases prefix) (auto simp: HasPrefix_def literal_def isMeta_def)
  have ne: "command \<noteq> prefix @ '' *''"
    using n HasPrefix_append [of "prefix @ '' ''" "''*''"] by auto
  have "Match (prefix @ '' *'') command = Inr False"
    using Match_literal_star_no_prefix [OF lit _ ] n by (simp only: p) simp
  then have "\<not> matchPattern (prefix @ '' *'') command"
    using n nostar ne HasSuffix_append [of prefix "'' *''"] TrimSuffix_append [of prefix "'' *''"]
    by (simp add: matchPattern_def Let_def)
  with assms(2) show False by simp
qed

text \<open>
  C9, as amended. A pattern \<open>prefix *\<close> matches the command that equals the prefix and
  every command that starts with the prefix and a space. When the prefix is free of the
  characters \<open>*\<close>, \<open>?\<close>, \<open>[\<close> and backslash it matches no other command.
\<close>

theorem space_star_pattern:
  "(command = prefix \<or> HasPrefix command (prefix @ '' '') \<longrightarrow> matchPattern (prefix @ '' *'') command)
   \<and> (literal prefix \<longrightarrow>
        (matchPattern (prefix @ '' *'') command \<longleftrightarrow>
           command = prefix \<or> HasPrefix command (prefix @ '' '')))"
  using space_star_matches space_star_literal_only by blast

text \<open>The pattern \<open>git *\<close> matches \<open>git\<close> and \<open>git status\<close>, not \<open>gitconfig\<close>.\<close>

theorem space_star_pattern_witness:
  "literal ''git'' \<and> matchPattern ''git *'' ''git'' \<and> matchPattern ''git *'' ''git status''
   \<and> \<not> matchPattern ''git *'' ''gitconfig''"
proof -
  have l: "literal ''git''" by code_simp
  have a: "\<not> (''gitconfig'' = ''git'' \<or> HasPrefix ''gitconfig'' (''git'' @ '' ''))" by code_simp
  have b: "HasPrefix ''git status'' (''git'' @ '' '')" by code_simp
  from space_star_pattern [of "''git''" "''git''"]
       space_star_pattern [of "''git status''" "''git''"]
       space_star_pattern [of "''gitconfig''" "''git''"] l a b
  show ?thesis by simp
qed

text \<open>C9, as stated for every pattern that ends in space-star: the prefix of
  \<open>ls * *\<close> is \<open>ls *\<close>; the command \<open>ls *.txt foo\<close> extends it without a space and
  is matched all the same, by the glob match the engine falls back to.\<close>

theorem space_star_counterexample:
  "HasSuffix ''ls * *'' '' *''
   \<and> HasPrefix ''ls *.txt foo'' (TrimSuffix ''ls * *'' '' *'')
   \<and> ''ls *.txt foo'' \<noteq> TrimSuffix ''ls * *'' '' *''
   \<and> \<not> HasPrefix ''ls *.txt foo'' (TrimSuffix ''ls * *'' '' *'' @ '' '')
   \<and> matchPattern ''ls * *'' ''ls *.txt foo''"
  by code_simp

text \<open>The shell returns as soon as the space-star test has failed: its matcher has the
  property for every prefix.\<close>

lemma shell_space_star:
  "match_pattern (pre @ '' *'') cmd \<longleftrightarrow> cmd = pre \<or> HasPrefix cmd (pre @ '' '')"
  using HasSuffix_append [of pre "'' *''"] TrimSuffix_append [of pre "'' *''"]
  by (simp add: match_pattern_def Let_def)

section \<open>Properties of file access\<close>

lemma HasPrefix_workspace_slash: "HasPrefix path ''/workspace'' \<Longrightarrow> hd path = CHR ''/''"
  by (cases path) (auto simp: HasPrefix_def)

lemma HasPrefix_hd: "HasPrefix path (c # p) \<Longrightarrow> hd path = c"
  by (cases path) (auto simp: HasPrefix_def)

lemma liesUnder_blocked:
  assumes "sd \<in> set sensitiveParents" and "liesUnder sd path"
  shows "EvaluateFileAccess path = sensitiveBlocked path
         \<or> EvaluateFileAccess path =
              \<lparr>Allowed = False, Action = ActionBlock, Rule = None,
               Reason = ''Access outside workspace blocked: '' @ path\<rparr>"
proof (cases "Contains path (''/'' @ sd @ ''/'')")
  case True
  then have "list_ex (\<lambda>sd. Base (Dir path) = sd \<or> Contains path (''/'' @ sd @ ''/''))
               sensitiveParents"
    using assms(1) by (auto simp: list_ex_iff)
  then show ?thesis by (simp add: EvaluateFileAccess_def Let_def)
next
  case False
  then have "HasPrefix path (sd @ ''/'')" using assms(2) by (simp add: liesUnder_def)
  then have "hd path = CHR ''.''"
    using assms(1) by (auto simp: sensitiveParents_def dest: HasPrefix_hd)
  then have "\<not> HasPrefix path ''/workspace''"
    using HasPrefix_workspace_slash by fastforce
  then show ?thesis by (simp add: EvaluateFileAccess_def Let_def)
qed

text \<open>
  C3. A path is blocked, with a reason, when its base name is \<open>.env\<close>, \<open>.npmrc\<close>,
  \<open>.pypirc\<close>, \<open>.bash_history\<close>, \<open>.zsh_history\<close>, \<open>id_rsa\<close>, \<open>id_ed25519\<close> or
  \<open>.gitconfig\<close>, when its base name starts with \<open>.env.\<close>, and when it lies under
  \<open>.ssh/\<close>, \<open>.aws/\<close> or \<open>.gnupg/\<close>; no hypothesis keeps the path out of the
  workspace.
\<close>

theorem EvaluateFileAccess_blocks_sensitive:
  assumes "Base path \<in> {''.env'', ''.npmrc'', ''.pypirc'', ''.bash_history'', ''.zsh_history'',
                         ''id_rsa'', ''id_ed25519'', ''.gitconfig''}
           \<or> HasPrefix (Base path) ''.env.''
           \<or> liesUnder ''.ssh'' path \<or> liesUnder ''.aws'' path \<or> liesUnder ''.gnupg'' path"
  shows "Allowed (EvaluateFileAccess path) = False
         \<and> Result.Action (EvaluateFileAccess path) = ActionBlock
         \<and> Result.Reason (EvaluateFileAccess path) \<noteq> []"
proof -
  consider
      (name) "Base path \<in> {''.env'', ''.npmrc'', ''.pypirc'', ''.bash_history'', ''.zsh_history'',
                            ''id_rsa'', ''id_ed25519'', ''.gitconfig''}"
    | (env) "HasPrefix (Base path) ''.env.''"
    | (dir) "\<exists>sd \<in> set sensitiveParents. liesUnder sd path"
    using assms by (auto simp: sensitiveParents_def)
  then show ?thesis
  proof cases
    case name
    then have "list_ex (\<lambda>name. Base path = name) sensitiveFiles"
      by (auto simp: sensitiveFiles_def)
    then show ?thesis by (simp add: EvaluateFileAccess_def Let_def sensitiveBlocked_def)
  next
    case env
    then show ?thesis by (simp add: EvaluateFileAccess_def Let_def sensitiveBlocked_def)
  next
    case dir
    then obtain sd where "sd \<in> set sensitiveParents" "liesUnder sd path" by blast
    from liesUnder_blocked [OF this] show ?thesis
      by (auto simp: sensitiveBlocked_def)
  qed
qed

text \<open>The paths \<open>/workspace/sub/.env\<close>, \<open>/workspace/.env.production\<close> and
  \<open>/workspace/.ssh/keys/id\<close>, all under the workspace, are blocked.\<close>

theorem EvaluateFileAccess_blocks_sensitive_witness:
  "Base ''/workspace/sub/.env'' = ''.env''
   \<and> Allowed (EvaluateFileAccess ''/workspace/sub/.env'') = False
   \<and> HasPrefix (Base ''/workspace/.env.production'') ''.env.''
   \<and> Allowed (EvaluateFileAccess ''/workspace/.env.production'') = False
   \<and> liesUnder ''.ssh'' ''/workspace/.ssh/keys/id''
   \<and> Allowed (EvaluateFileAccess ''/workspace/.ssh/keys/id'') = False"
proof -
  have a: "Base ''/workspace/sub/.env'' = ''.env''" by code_simp
  have b: "HasPrefix (Base ''/workspace/.env.production'') ''.env.''" by code_simp
  have c: "liesUnder ''.ssh'' ''/workspace/.ssh/keys/id''" by code_simp
  from EvaluateFileAccess_blocks_sensitive [of "''/workspace/sub/.env''"]
       EvaluateFileAccess_blocks_sensitive [of "''/workspace/.env.production''"]
       EvaluateFileAccess_blocks_sensitive [of "''/workspace/.ssh/keys/id''"] a b c
  show ?thesis by simp
qed

text \<open>The paths of the tests: the sensitive ones are blocked, the files of the workspace
  allowed, \<open>/etc/passwd\<close> blocked.\<close>

lemma EvaluateFileAccess_tests:
  "map (\<lambda>p. Allowed (EvaluateFileAccess p))
     [''/home/user/.env'', ''/workspace/.env'', ''/home/user/.ssh/id_rsa'',
      ''/home/user/.aws/credentials'', ''/workspace/main.go'', ''/workspace/src/index.ts'',
      ''/workspace/README.md'', ''/etc/passwd'']
   = [False, False, False, False, True, True, True, False]"
  by code_simp

section \<open>Properties of the sandbox engine\<close>

text \<open>
  C10. An engine without a policy engine evaluates nothing: \<open>ExecCommand\<close> adds no
  line to the audit log, its first call is the exec of the command as given in the
  session's container, and its result is decided by the daemon's answers alone.
\<close>

theorem ExecCommand_without_policy:
  assumes "policy e = None"
  shows "audit (snd (ExecCommand ev e w session cmd)) = audit w
       \<and> take 1 (drop (length (trace w)) (trace (snd (ExecCommand ev e w session cmd))))
           = [ContainerExecCreate (Session.ContainerID session) cmd ''/workspace'']
       \<and> fst (ExecCommand ev e w session cmd) =
           (case exec_create_answer ev (trace w) (Session.ContainerID session) cmd of
              Inl err \<Rightarrow> Inl (''creating exec: '' @ err)
            | Inr execID \<Rightarrow>
                (case exec_attach_answer ev
                        (trace w @ [ContainerExecCreate (Session.ContainerID session) cmd ''/workspace''])
                        execID of
                   Inl err \<Rightarrow> Inl (''attaching to exec: '' @ err)
                 | Inr reader \<Rightarrow>
                     (case read_answer ev
                             (trace w @ [ContainerExecCreate (Session.ContainerID session) cmd ''/workspace'',
                                         ContainerExecAttach execID]) reader of
                        Inl err \<Rightarrow> Inl (''reading exec output: '' @ err)
                      | Inr output \<Rightarrow> Inr output)))"
  using assms
  by (auto simp: ExecCommand_def Let_def did_def split: sum.splits)

text \<open>Without a policy engine \<open>sudo rm -rf /\<close> reaches the container.\<close>

theorem ExecCommand_without_policy_witness:
  "policy \<lparr>policy = None, auditor = True\<rparr> = None
   \<and> ExecCommand okEnv \<lparr>policy = None, auditor = True\<rparr> world0 session1 [''sudo'', ''rm'', ''-rf'', ''/'']
       = (Inr ''output'',
          \<lparr>trace = [ContainerExecCreate ''container-1'' [''sudo'', ''rm'', ''-rf'', ''/''] ''/workspace'',
                    ContainerExecAttach ''exec-1'', ReadAll ''reader-1''],
           audit = []\<rparr>)"
proof -
  have p: "policy \<lparr>policy = None, auditor = True\<rparr> = None" by simp
  have "ExecCommand okEnv \<lparr>policy = None, auditor = True\<rparr> world0 session1 [''sudo'', ''rm'', ''-rf'', ''/'']
       = (Inr ''output'',
          \<lparr>trace = [ContainerExecCreate ''container-1'' [''sudo'', ''rm'', ''-rf'', ''/''] ''/workspace'',
                    ContainerExecAttach ''exec-1'', ReadAll ''reader-1''],
           audit = []\<rparr>)"
    using ExecCommand_without_policy [OF p, of okEnv world0 session1 "[''sudo'', ''rm'', ''-rf'', ''/'']"]
    by (simp add: ExecCommand_def Let_def did_def okEnv_def world0_def session1_def)
  with p show ?thesis by simp
qed

text \<open>With the default rules the same command is blocked before any call, and the
  denial is logged.\<close>

lemma ExecCommand_with_policy_blocks:
  "ExecCommand okEnv \<lparr>policy = Some DefaultRules, auditor = True\<rparr> world0 session1 [''sudo'', ''rm'', ''-rf'', ''/'']
   = (Inl ''policy blocked: sudo rm -rf / (reason: Privilege escalation not allowed)'',
      \<lparr>trace = [],
       audit = [\<lparr>AuditEntry.Timestamp = 1, AuditEntry.SessionID = ''cs-x'',
                 AuditEntry.AgentName = ''x'', AuditEntry.EventType = ''command_exec'',
                 AuditEntry.Command = ''sudo rm -rf /'', AuditEntry.FilePath = [],
                 AuditEntry.Action = ActionBlock,
                 AuditEntry.Reason = ''Privilege escalation not allowed'',
                 AuditEntry.RulePattern = ''sudo *''\<rparr>]\<rparr>)"
  by code_simp

section \<open>Properties of the orchestrator\<close>

lemma SpawnAgent_existing:
  "sessions orch agentName = Some s \<Longrightarrow>
   SpawnAgent ev orch w projectDir agentName cfg =
     (Inl (''agent '' @ quote agentName @ '' already exists''), orch, w)"
  by (simp add: SpawnAgent_def)

lemma SpawnAgent_fresh:
  "sessions orch agentName = None \<Longrightarrow>
   fst (SpawnAgent ev orch w projectDir agentName cfg)
     \<noteq> Inl (''agent '' @ quote agentName @ '' already exists'')"
  by (auto simp: SpawnAgent_def Let_def split: sum.splits prod.splits)

lemma StopAgent_deletes:
  "StopAgent ev orch w agentName merge = (None, orch', w') \<Longrightarrow> sessions orch' agentName = None"
  by (auto simp: StopAgent_def Let_def split: sum.splits prod.splits option.splits if_splits)

text \<open>
  C6. \<open>SpawnAgent\<close> with a name that has an entry in the map fails with the error
  "agent ... already exists"; the map and the world stay as they were, no call is made.
  After a \<open>StopAgent\<close> without merge that succeeded the name has no entry, and no
  \<open>SpawnAgent\<close> with that name fails with that error.
\<close>

theorem SpawnAgent_duplicate_name:
  "(sessions orch agentName \<noteq> None \<longrightarrow>
      SpawnAgent ev orch w projectDir agentName cfg =
        (Inl (''agent '' @ quote agentName @ '' already exists''), orch, w))
   \<and> (StopAgent ev orch w agentName False = (None, orch', w') \<longrightarrow>
        sessions orch' agentName = None
        \<and> fst (SpawnAgent ev' orch' w'' projectDir' agentName cfg')
            \<noteq> Inl (''agent '' @ quote agentName @ '' already exists''))"
  using SpawnAgent_existing SpawnAgent_fresh StopAgent_deletes
  by (metis not_None_eq)

text \<open>Agent \<open>x\<close> is spawned, spawned again, stopped and spawned once more.\<close>

theorem SpawnAgent_duplicate_name_witness:
  "sessions (fst (snd spawned)) ''x'' \<noteq> None
   \<and> SpawnAgent okEnv (fst (snd spawned)) (snd (snd spawned)) ''/proj'' ''x'' ()
       = (Inl (''agent '' @ quote ''x'' @ '' already exists''), fst (snd spawned), snd (snd spawned))
   \<and> fst stopped = None
   \<and> sessions (fst (snd stopped)) ''x'' = None
   \<and> fst (SpawnAgent okEnv (fst (snd stopped)) (snd (snd stopped)) ''/proj'' ''x'' ())
       \<noteq> Inl (''agent '' @ quote ''x'' @ '' already exists'')"
proof -
  have a: "sessions (fst (snd spawned)) ''x'' \<noteq> None" by code_simp
  have b: "fst stopped = None" by code_simp
  then have c: "StopAgent okEnv (fst (snd spawned)) (snd (snd spawned)) ''x'' False
                 = (None, fst (snd stopped), snd (snd stopped))"
    by (metis stopped_def prod.collapse)
  from SpawnAgent_duplicate_name [of "fst (snd spawned)" "''x''" okEnv "snd (snd spawned)"
        "''/proj''" "()" "fst (snd stopped)" "snd (snd stopped)" okEnv "snd (snd stopped)"
        "''/proj''" "()"] a b c
  show ?thesis by simp
qed

section \<open>Properties of the rollback manager\<close>

text \<open>What a rollback that succeeded has done: the manager is as it was, the calls are
  the stop and the removal of the old container, the creation of a container from the
  image of the first checkpoint with the id, and its start; the session refers to the
  container created.\<close>

lemma Rollback_success:
  assumes "Rollback ev m w session checkpointID = (None, m', session', w')"
  shows "\<exists>cps target.
           checkpoints m (Session.ID session) = Some cps
           \<and> findCheckpoint cps checkpointID = Some target
           \<and> create_answer ev
                 (trace w @ [ContainerStop (Session.ContainerID session) 5,
                             ContainerRemove (Session.ContainerID session)])
                 (Checkpoint.ImageID target) (Session.ID session)
               = Inr (Session.ContainerID session')
           \<and> m' = m
           \<and> session' = session\<lparr>Session.ContainerID := Session.ContainerID session',
                                  Session.UpdatedAt := now ev (trace w')\<rparr>
           \<and> trace w' = trace w @
                 [ContainerStop (Session.ContainerID session) 5,
                  ContainerRemove (Session.ContainerID session),
                  ContainerCreate (Checkpoint.ImageID target) ''/workspace'' (Session.ID session),
                  ContainerStart (Session.ContainerID session')]
           \<and> audit w' = audit w"
proof -
  from assms obtain cps where c: "checkpoints m (Session.ID session) = Some cps"
    by (auto simp: Rollback_def split: option.splits)
  from assms c obtain target where t: "findCheckpoint cps checkpointID = Some target"
    by (auto simp: Rollback_def split: option.splits)
  let ?tr2 = "trace w @ [ContainerStop (Session.ContainerID session) 5,
                         ContainerRemove (Session.ContainerID session)]"
  from assms c t obtain respID where
    r: "create_answer ev ?tr2 (Checkpoint.ImageID target) (Session.ID session) = Inr respID"
    by (auto simp: Rollback_def Let_def did_def split: sum.splits)
  from assms c t r have
    res: "m' = m"
         "session' = session\<lparr>Session.ContainerID := respID,
                               Session.UpdatedAt := now ev (trace w')\<rparr>"
         "trace w' = trace w @ [ContainerStop (Session.ContainerID session) 5,
             ContainerRemove (Session.ContainerID session),
             ContainerCreate (Checkpoint.ImageID target) ''/workspace'' (Session.ID session),
             ContainerStart respID]"
         "audit w' = audit w"
    by (auto simp: Rollback_def Let_def did_def split: option.splits)
  from res(2) have i: "Session.ContainerID session' = respID" by simp
  show ?thesis using c t r res i by auto
qed

text \<open>
  C7. A rollback that succeeds leaves the manager as it was: every session has the
  checkpoint list it had, in the same order, the later checkpoints included. The
  session keeps its id and refers to the container the daemon created from the image of
  the checkpoint; this is another container than before whenever the daemon, at this
  call, does not give the new container the id of the old one.
\<close>

theorem Rollback_keeps_checkpoints:
  assumes "Rollback ev m w session checkpointID = (None, m', session', w')"
  shows "m' = m
       \<and> ListCheckpoints m' sessionID = ListCheckpoints m sessionID
       \<and> Session.ID session' = Session.ID session
       \<and> (\<exists>target.
             findCheckpoint (ListCheckpoints m (Session.ID session)) checkpointID = Some target
             \<and> create_answer ev
                   (trace w @ [ContainerStop (Session.ContainerID session) 5,
                               ContainerRemove (Session.ContainerID session)])
                   (Checkpoint.ImageID target) (Session.ID session)
                 = Inr (Session.ContainerID session'))
       \<and> ((\<forall>image. create_answer ev
                      (trace w @ [ContainerStop (Session.ContainerID session) 5,
                                  ContainerRemove (Session.ContainerID session)])
                      image (Session.ID session)
                    \<noteq> Inr (Session.ContainerID session))
            \<longrightarrow> Session.ContainerID session' \<noteq> Session.ContainerID session)"
proof -
  from Rollback_success [OF assms] obtain cps target where
    h: "checkpoints m (Session.ID session) = Some cps"
       "findCheckpoint cps checkpointID = Some target"
       "create_answer ev
          (trace w @ [ContainerStop (Session.ContainerID session) 5,
                      ContainerRemove (Session.ContainerID session)])
          (Checkpoint.ImageID target) (Session.ID session)
        = Inr (Session.ContainerID session')"
       "m' = m"
       "session' = session\<lparr>Session.ContainerID := Session.ContainerID session',
                             Session.UpdatedAt := now ev (trace w')\<rparr>"
    by blast
  have l: "ListCheckpoints m (Session.ID session) = cps"
    using h(1) by (simp add: ListCheckpoints_def)
  have i: "Session.ID session' = Session.ID session"
    by (subst h(5)) simp
  have n: "(\<forall>image. create_answer ev
                      (trace w @ [ContainerStop (Session.ContainerID session) 5,
                                  ContainerRemove (Session.ContainerID session)])
                      image (Session.ID session)
                    \<noteq> Inr (Session.ContainerID session))
            \<longrightarrow> Session.ContainerID session' \<noteq> Session.ContainerID session"
    using h(3) by metis
  show ?thesis using h(2,3,4) l i n by blast
qed

text \<open>The fixtures are what the code makes of three checkpoint creations.\<close>

lemma threeCheckpoints_are:
  "ListCheckpoints (fst threeCheckpoints) ''cs-x'' = [checkpoint1, checkpoint2, checkpoint3]
   \<and> ListCheckpoints manager3 ''cs-x'' = [checkpoint1, checkpoint2, checkpoint3]
   \<and> storagePath (fst threeCheckpoints) = storagePath manager3
   \<and> snd threeCheckpoints = world3"
  by code_simp

text \<open>Of three checkpoints the session is rolled back to the first and then forward to
  the third: both rollbacks succeed, the three checkpoints stay listed in their order,
  and each time the daemon's answer is a new id and the session refers to another
  container.\<close>

theorem Rollback_keeps_checkpoints_witness:
  "fst rolledBack = None
   \<and> ListCheckpoints (fst (snd rolledBack)) ''cs-x'' = [checkpoint1, checkpoint2, checkpoint3]
   \<and> Session.ContainerID (fst (snd (snd rolledBack))) \<noteq> Session.ContainerID session1
   \<and> fst rolledForward = None
   \<and> ListCheckpoints (fst (snd rolledForward)) ''cs-x'' = [checkpoint1, checkpoint2, checkpoint3]
   \<and> Session.ContainerID (fst (snd (snd rolledForward)))
       \<noteq> Session.ContainerID (fst (snd (snd rolledBack)))"
proof -
  let ?s2 = "fst (snd (snd rolledBack))" and ?w4 = "snd (snd (snd rolledBack))"
  have l: "ListCheckpoints manager3 ''cs-x'' = [checkpoint1, checkpoint2, checkpoint3]"
    by code_simp
  have a: "fst rolledBack = None" by code_simp
  then have b: "Rollback okEnv manager3 world3 session1 ''cs-cp-1''
      = (None, fst (snd rolledBack), ?s2, ?w4)"
    by (metis rolledBack_def prod.collapse)
  have c: "fst rolledForward = None" by code_simp
  then have d: "Rollback okEnv manager3 ?w4 ?s2 ''cs-cp-7''
      = (None, fst (snd rolledForward), fst (snd (snd rolledForward)),
         snd (snd (snd rolledForward)))"
    by (metis rolledForward_def prod.collapse)
  have e: "create_answer okEnv
             (trace world3 @ [ContainerStop (Session.ContainerID session1) 5,
                              ContainerRemove (Session.ContainerID session1)])
             image (Session.ID session1) \<noteq> Inr (Session.ContainerID session1)" for image
  proof -
    have "''restored-'' @ decimal (length
             (trace world3 @ [ContainerStop (Session.ContainerID session1) 5,
                              ContainerRemove (Session.ContainerID session1)]))
           \<noteq> Session.ContainerID session1"
      by code_simp
    then show ?thesis by (simp add: okEnv_def)
  qed
  have f: "create_answer okEnv
             (trace ?w4 @ [ContainerStop (Session.ContainerID ?s2) 5,
                           ContainerRemove (Session.ContainerID ?s2)])
             image (Session.ID ?s2) \<noteq> Inr (Session.ContainerID ?s2)" for image
  proof -
    have "''restored-'' @ decimal (length
             (trace ?w4 @ [ContainerStop (Session.ContainerID ?s2) 5,
                           ContainerRemove (Session.ContainerID ?s2)]))
           \<noteq> Session.ContainerID ?s2"
      by code_simp
    then show ?thesis by (simp add: okEnv_def)
  qed
  from Rollback_keeps_checkpoints [OF b, of "''cs-x''"]
       Rollback_keeps_checkpoints [OF d, of "''cs-x''"] l a c e f
  show ?thesis by simp
qed

text \<open>A rollback to an id of the list succeeds when the daemon creates and starts the
  new container, whatever becomes of the old one.\<close>

lemma Rollback_succeeds:
  assumes "checkpoints m (Session.ID session) = Some cps"
    and "findCheckpoint cps checkpointID = Some target"
    and "create_answer ev
           (trace w @ [ContainerStop (Session.ContainerID session) 5,
                       ContainerRemove (Session.ContainerID session)])
           (Checkpoint.ImageID target) (Session.ID session) = Inr respID"
    and "start_answer ev
           (trace w @ [ContainerStop (Session.ContainerID session) 5,
                       ContainerRemove (Session.ContainerID session),
                       ContainerCreate (Checkpoint.ImageID target) ''/workspace'' (Session.ID session)])
           respID = None"
  shows "fst (Rollback ev m w session checkpointID) = None"
  using assms by (simp add: Rollback_def Let_def did_def)

lemma findCheckpoint_present:
  "list_ex (\<lambda>cp. Checkpoint.ID cp = checkpointID) cps \<Longrightarrow>
   \<exists>target. findCheckpoint cps checkpointID = Some target \<and> Checkpoint.ID target = checkpointID"
  by (induction cps) (auto simp: findCheckpoint_def)

text \<open>The decimal numeral of a number determines it, so that the ids of checkpoints
  begun in different milliseconds differ.\<close>

lemma decimal_nonempty: "decimal n \<noteq> []"
  by (subst decimal.simps) simp

lemma digit_inj: "a < 10 \<Longrightarrow> b < 10 \<Longrightarrow> char_of (48 + a) = (char_of (48 + b) :: char) \<Longrightarrow> a = (b::nat)"
  by (simp add: char_of_eq_iff take_bit_eq_mod)

lemma decimal_inj: "decimal n = decimal m \<Longrightarrow> n = m"
proof (induction n arbitrary: m rule: decimal.induct)
  case (1 n)
  show ?case
  proof (cases "n < 10")
    case True
    then have dn: "decimal n = [char_of (48 + n)]" by (subst decimal.simps) simp
    show ?thesis
    proof (cases "m < 10")
      case m: True
      then have "decimal m = [char_of (48 + m)]" by (subst decimal.simps) simp
      with dn "1.prems" have "char_of (48 + n) = (char_of (48 + m) :: char)" by simp
      with True m show ?thesis by (rule digit_inj)
    next
      case m: False
      then have "decimal m = decimal (m div 10) @ [char_of (48 + m mod 10)]"
        by (subst decimal.simps) simp
      with dn "1.prems" decimal_nonempty [of "m div 10"] show ?thesis
        by (cases "decimal (m div 10)") auto
    qed
  next
    case False
    then have dn: "decimal n = decimal (n div 10) @ [char_of (48 + n mod 10)]"
      by (subst decimal.simps) simp
    show ?thesis
    proof (cases "m < 10")
      case m: True
      then have "decimal m = [char_of (48 + m)]" by (subst decimal.simps) simp
      with dn "1.prems" decimal_nonempty [of "n div 10"] show ?thesis
        by (cases "decimal (n div 10)") auto
    next
      case m: False
      then have "decimal m = decimal (m div 10) @ [char_of (48 + m mod 10)]"
        by (subst decimal.simps) simp
      with dn "1.prems" have e: "decimal (n div 10) = decimal (m div 10)"
        and c: "char_of (48 + n mod 10) = (char_of (48 + m mod 10) :: char)" by auto
      from "1.IH" [OF False e] have q: "n div 10 = m div 10" .
      have "n mod 10 = m mod 10" using c by (intro digit_inj) auto
      with q show ?thesis by (metis div_mult_mod_eq)
    qed
  qed
qed

text \<open>A checkpoint created gets the id of the millisecond, and is appended.\<close>

lemma CreateCheckpoint_appends:
  assumes "CreateCheckpoint ev m w session description = (Inr cp, m', w')"
  shows "ListCheckpoints m' (Session.ID session) = ListCheckpoints m (Session.ID session) @ [cp]
         \<and> Checkpoint.ID cp = ''cs-cp-'' @ decimal (now ev (trace w))
         \<and> (\<forall>sid. sid \<noteq> Session.ID session \<longrightarrow> ListCheckpoints m' sid = ListCheckpoints m sid)"
  using assms
  by (auto simp: CreateCheckpoint_def Let_def ListCheckpoints_def split: sum.splits option.splits)

text \<open>When the clock has passed the milliseconds of the checkpoints of the list, the
  new checkpoint has an id none of them has, and the list stays one of that kind.\<close>

lemma CreateCheckpoint_new_id:
  assumes "CreateCheckpoint ev m w session description = (Inr cp, m', w')"
    and "createdBefore (now ev (trace w)) (ListCheckpoints m (Session.ID session))"
  shows "\<not> list_ex (\<lambda>c. Checkpoint.ID c = Checkpoint.ID (last (ListCheckpoints m' (Session.ID session))))
            (butlast (ListCheckpoints m' (Session.ID session)))
         \<and> createdBefore (Suc (now ev (trace w))) (ListCheckpoints m' (Session.ID session))"
proof -
  from CreateCheckpoint_appends [OF assms(1)] have
    l: "ListCheckpoints m' (Session.ID session) = ListCheckpoints m (Session.ID session) @ [cp]"
    and i: "Checkpoint.ID cp = ''cs-cp-'' @ decimal (now ev (trace w))" by auto
  have "\<forall>c \<in> set (ListCheckpoints m (Session.ID session)). Checkpoint.ID c \<noteq> Checkpoint.ID cp"
  proof
    fix c assume "c \<in> set (ListCheckpoints m (Session.ID session))"
    then obtain u where "u < now ev (trace w)" "Checkpoint.ID c = ''cs-cp-'' @ decimal u"
      using assms(2) by (auto simp: createdBefore_def list_all_iff list_ex_iff)
    then show "Checkpoint.ID c \<noteq> Checkpoint.ID cp"
      using i decimal_inj by fastforce
  qed
  moreover have "createdBefore (Suc (now ev (trace w))) (ListCheckpoints m' (Session.ID session))"
    using assms(2) i l by (auto simp: createdBefore_def list_all_iff list_ex_iff intro: less_SucI)
  ultimately show ?thesis using l by (auto simp: list_ex_iff)
qed

text \<open>The scan for the id of the last checkpoint finds the last checkpoint when no
  earlier one has its id.\<close>

lemma find_last:
  "P x \<Longrightarrow> \<not> list_ex P xs \<Longrightarrow> find P (xs @ [x]) = Some x"
  by (induction xs) auto

lemma findCheckpoint_last:
  assumes "cps \<noteq> []"
    and "\<not> list_ex (\<lambda>cp. Checkpoint.ID cp = Checkpoint.ID (last cps)) (butlast cps)"
  shows "findCheckpoint cps (Checkpoint.ID (last cps)) = Some (last cps)"
proof -
  have "cps = butlast cps @ [last cps]" using assms(1) by simp
  then have "findCheckpoint cps (Checkpoint.ID (last cps))
      = find (\<lambda>cp. Checkpoint.ID cp = Checkpoint.ID (last cps)) (butlast cps @ [last cps])"
    by (simp add: findCheckpoint_def)
  also have "\<dots> = Some (last cps)" using assms(2) by (intro find_last) auto
  finally show ?thesis .
qed

lemma RollbackToLatest_last:
  assumes "checkpoints m (Session.ID session) = Some cps" and "cps \<noteq> []"
  shows "RollbackToLatest ev m w session = Rollback ev m w session (Checkpoint.ID (last cps))"
  using assms by (simp add: RollbackToLatest_def)

lemma RollbackToLatest_none:
  assumes "checkpoints m (Session.ID session) = None \<or> checkpoints m (Session.ID session) = Some []"
  shows "RollbackToLatest ev m w session =
           (Some (''no checkpoints for session '' @ Session.ID session), m, session, w)"
  using assms by (auto simp: RollbackToLatest_def)

lemma RollbackToLatest_restores_last:
  assumes "checkpoints m (Session.ID session) = Some cps" and "cps \<noteq> []"
    and "\<not> list_ex (\<lambda>cp. Checkpoint.ID cp = Checkpoint.ID (last cps)) (butlast cps)"
    and "RollbackToLatest ev m w session = (None, m', session', w')"
  shows "trace w' = trace w @
           [ContainerStop (Session.ContainerID session) 5,
            ContainerRemove (Session.ContainerID session),
            ContainerCreate (Checkpoint.ImageID (last cps)) ''/workspace'' (Session.ID session),
            ContainerStart (Session.ContainerID session')]"
proof -
  have t: "findCheckpoint cps (Checkpoint.ID (last cps)) = Some (last cps)"
    using assms(2,3) by (rule findCheckpoint_last)
  have "Rollback ev m w session (Checkpoint.ID (last cps)) = (None, m', session', w')"
    using assms(1,2,4) by (simp add: RollbackToLatest_def)
  from Rollback_success [OF this] show ?thesis using assms(1) t by auto
qed

text \<open>
  C8. On a session whose checkpoint list is not empty \<open>RollbackToLatest\<close> is the
  rollback to the id of the last checkpoint of the list. The ids of a session's
  checkpoints differ (each is made of the millisecond its checkpoint was begun in): when
  no earlier checkpoint has the id of the last, the checkpoint rolled back to is the last
  one, and a rollback that succeeds has created the container from its image. On a
  session without checkpoints the error names the session and nothing is done.
\<close>

theorem RollbackToLatest_selects_last:
  "(checkpoints m (Session.ID session) = Some cps \<and> cps \<noteq> [] \<longrightarrow>
      RollbackToLatest ev m w session = Rollback ev m w session (Checkpoint.ID (last cps))
      \<and> (\<not> list_ex (\<lambda>cp. Checkpoint.ID cp = Checkpoint.ID (last cps)) (butlast cps) \<longrightarrow>
           findCheckpoint cps (Checkpoint.ID (last cps)) = Some (last cps)
           \<and> (RollbackToLatest ev m w session = (None, m', session', w') \<longrightarrow>
                trace w' = trace w @
                  [ContainerStop (Session.ContainerID session) 5,
                   ContainerRemove (Session.ContainerID session),
                   ContainerCreate (Checkpoint.ImageID (last cps)) ''/workspace''
                     (Session.ID session),
                   ContainerStart (Session.ContainerID session')])))
   \<and> (checkpoints m (Session.ID session) = None
        \<or> checkpoints m (Session.ID session) = Some [] \<longrightarrow>
        RollbackToLatest ev m w session =
          (Some (''no checkpoints for session '' @ Session.ID session), m, session, w))"
  using RollbackToLatest_last [of m session cps ev w]
        findCheckpoint_last [of cps]
        RollbackToLatest_restores_last [of m session cps ev w m' session' w']
        RollbackToLatest_none [of m session ev w]
  by blast

text \<open>On the checkpoints \<open>[c1, c2, c3]\<close> the rollback to the latest creates the
  container from the image of \<open>c3\<close>; on the manager without checkpoints it fails with
  the session's id in the message.\<close>

theorem RollbackToLatest_selects_last_witness:
  "ListCheckpoints manager3 ''cs-x'' = [checkpoint1, checkpoint2, checkpoint3]
   \<and> fst rolledToLatest = None
   \<and> trace (snd (snd (snd rolledToLatest))) = trace world3 @
        [ContainerStop ''container-1'' 5, ContainerRemove ''container-1'',
         ContainerCreate (Checkpoint.ImageID checkpoint3) ''/workspace'' ''cs-x'',
         ContainerStart (Session.ContainerID (fst (snd (snd rolledToLatest))))]
   \<and> RollbackToLatest okEnv manager0 world0 session1
       = (Some ''no checkpoints for session cs-x'', manager0, session1, world0)"
proof -
  let ?cps = "[checkpoint1, checkpoint2, checkpoint3]"
  have i: "ListCheckpoints manager3 ''cs-x'' = ?cps" by code_simp
  have c: "checkpoints manager3 (Session.ID session1) = Some ?cps"
    by (simp add: manager3_def session1_def)
  have d: "\<not> list_ex (\<lambda>cp. Checkpoint.ID cp = Checkpoint.ID (last ?cps)) (butlast ?cps)"
    by code_simp
  have a: "fst rolledToLatest = None" by code_simp
  then have r: "RollbackToLatest okEnv manager3 world3 session1
      = (None, fst (snd rolledToLatest), fst (snd (snd rolledToLatest)),
         snd (snd (snd rolledToLatest)))"
    by (metis rolledToLatest_def prod.collapse)
  have s: "Session.ContainerID session1 = ''container-1''" "Session.ID session1 = ''cs-x''"
    by (simp_all add: session1_def)
  have n: "checkpoints manager0 (Session.ID session1) = None"
    by (simp add: manager0_def)
  have t: "trace (snd (snd (snd rolledToLatest))) = trace world3 @
        [ContainerStop ''container-1'' 5, ContainerRemove ''container-1'',
         ContainerCreate (Checkpoint.ImageID checkpoint3) ''/workspace'' ''cs-x'',
         ContainerStart (Session.ContainerID (fst (snd (snd rolledToLatest))))]"
    using RollbackToLatest_selects_last
            [where m = manager3 and session = session1 and cps = ?cps and ev = okEnv
               and w = world3 and m' = "fst (snd rolledToLatest)"
               and session' = "fst (snd (snd rolledToLatest))"
               and w' = "snd (snd (snd rolledToLatest))"]
          c d r s
    by simp
  have e: "RollbackToLatest okEnv manager0 world0 session1
       = (Some ''no checkpoints for session cs-x'', manager0, session1, world0)"
    using RollbackToLatest_selects_last
            [where m = manager0 and session = session1 and ev = okEnv and w = world0] n s
    by simp
  from i a t e show ?thesis by simp
qed

end
